theory Spec2Isabelle
  imports Main
begin

section \<open>MarketHub order engine: data model\<close>

text \<open>
  The order router (\<^verbatim>\<open>routers/order.ts\<close>) and the product router
  (\<^verbatim>\<open>routers/product.ts\<close>) are embedded as functions on an explicit database
  state. A handler takes the state, the id of the authenticated user
  (\<^verbatim>\<open>context.session.user.id\<close>) and its input as typed by the zod schema, and returns
  what it returns or throws together with the state it leaves behind.

  Numbers. \<^verbatim>\<open>stock\<close> and \<^verbatim>\<open>quantity\<close> are integers (\<^verbatim>\<open>z.number().int()\<close>) and are
  modelled by \<open>int\<close>; the column range of the storage layer is not part of the sources.
  A price is a JavaScript \<^verbatim>\<open>number\<close>; its type is the parameter \<open>'n\<close> with nothing
  assumed of \<open>0\<close>, \<open>+\<close> and \<open>*\<close>, so what is proved of a total holds for whatever
  arithmetic the number type has. An integer quantity enters that arithmetic through the
  parameter \<open>num\<close> (in JavaScript the identity: both are \<^verbatim>\<open>number\<close>).

  Ids are strings, as in the source, except order ids: Prisma generates a fresh cuid for
  each created order, the model numbers the rows of the order table in creation order and
  an order's id is its row number. Orders are never deleted by any procedure.
\<close>

datatype OrderStatus = PENDING | CONFIRMED | SHIPPED | DELIVERED | CANCELLED

record vendor =
  v_id :: string
  v_userId :: string
  v_isApproved :: bool

record 'n product =
  p_vendorId :: string
  p_categoryId :: string
  p_name :: string
  p_description :: string
  p_price :: 'n
  p_stock :: int
  p_isActive :: bool

record cartItem =
  c_userId :: string
  c_productId :: string
  c_quantity :: int

record 'n orderItem =
  oi_productId :: string
  oi_quantity :: int
  oi_price :: 'n

record 'n order =
  o_userId :: string
  o_vendorId :: string
  o_shippingAddress :: string
  o_total :: 'n
  o_status :: OrderStatus
  o_items :: "'n orderItem list"

text \<open>
  The tables. Products are looked up by primary key only and are a map from id to row;
  vendors are looked up by \<^verbatim>\<open>id\<close> and by \<^verbatim>\<open>userId\<close> and are a list of rows; of a
  category only its id is used.
\<close>

record 'n db =
  tbl_vendor :: "vendor list"
  tbl_category :: "string list"
  tbl_product :: "string \<rightharpoonup> 'n product"
  tbl_cartItem :: "cartItem list"
  tbl_order :: "'n order list"

subsection \<open>Errors\<close>

text \<open>
  A handler throws \<^verbatim>\<open>new ORPCError(code, {message})\<close>. The message is kept as the
  template it is built from and the values put into it. \<open>PrismaClientError\<close> is an exception
  of the storage client itself (a row to update or a related row that does not exist); it is
  not an \<^verbatim>\<open>ORPCError\<close>.
\<close>

datatype code = BAD_REQUEST | FORBIDDEN | NOT_FOUND

datatype message =
    MustBeVendor
  | VendorPendingApproval
  | ProductNoLongerAvailable string
  | VendorNoLongerApproved string
  | InsufficientStock string int
  | CartIsEmpty
  | OrderNotFound
  | OnlyUpdateOwnOrders
  | CannotUpdateCancelled
  | CannotUpdateDelivered
  | OnlyCancelOwnOrders
  | CannotCancelWithStatus OrderStatus
  | ProductNotFound
  | CategoryNotFound
  | OnlyUpdateOwnProducts
  | OnlyDeleteOwnProducts

text \<open>
  The messages, with \<open>name\<close> the product's name and \<open>n\<close> its stock:
  \<^item> \<open>MustBeVendor\<close>: \<^verbatim>\<open>You must be a vendor to perform this action\<close>
  \<^item> \<open>VendorPendingApproval\<close>: \<^verbatim>\<open>Your vendor account is pending approval\<close>
  \<^item> \<open>ProductNoLongerAvailable name\<close>: \<^verbatim>\<open>Product "name" is no longer available\<close>
  \<^item> \<open>VendorNoLongerApproved name\<close>: \<^verbatim>\<open>Vendor for "name" is no longer approved\<close>
  \<^item> \<open>InsufficientStock name n\<close>:
    \<^verbatim>\<open>Insufficient stock for "name". Only n available.\<close>
  \<^item> \<open>CartIsEmpty\<close>: \<^verbatim>\<open>Your cart is empty\<close>
  \<^item> \<open>OrderNotFound\<close>: \<^verbatim>\<open>Order not found\<close>
  \<^item> \<open>OnlyUpdateOwnOrders\<close>: \<^verbatim>\<open>You can only update your own orders\<close>
  \<^item> \<open>CannotUpdateCancelled\<close>: \<^verbatim>\<open>Cannot update a cancelled order\<close>
  \<^item> \<open>CannotUpdateDelivered\<close>: \<^verbatim>\<open>Cannot update a delivered order\<close>
  \<^item> \<open>OnlyCancelOwnOrders\<close>: \<^verbatim>\<open>You can only cancel your own orders\<close>
  \<^item> \<open>CannotCancelWithStatus st\<close>: \<^verbatim>\<open>Cannot cancel order with status st\<close>
  \<^item> \<open>ProductNotFound\<close>: \<^verbatim>\<open>Product not found\<close>
  \<^item> \<open>CategoryNotFound\<close>: \<^verbatim>\<open>Category not found\<close>
  \<^item> \<open>OnlyUpdateOwnProducts\<close>: \<^verbatim>\<open>You can only update your own products\<close>
  \<^item> \<open>OnlyDeleteOwnProducts\<close>: \<^verbatim>\<open>You can only delete your own products\<close>
\<close>

datatype error = ORPCError code message | PrismaClientError

fun codeOf :: "error \<Rightarrow> code option" where
  "codeOf (ORPCError c m) = Some c"
| "codeOf PrismaClientError = None"

subsection \<open>Storage primitives\<close>

definition vendor_findUnique_userId :: "'n db \<Rightarrow> string \<Rightarrow> vendor option" where
  "vendor_findUnique_userId s userId = find (\<lambda>v. v_userId v = userId) (tbl_vendor s)"

definition vendor_findUnique_id :: "'n db \<Rightarrow> string \<Rightarrow> vendor option" where
  "vendor_findUnique_id s vid = find (\<lambda>v. v_id v = vid) (tbl_vendor s)"

definition order_findUnique :: "'n db \<Rightarrow> nat \<Rightarrow> 'n order option" where
  "order_findUnique s orderId =
     (if orderId < length (tbl_order s) then Some (tbl_order s ! orderId) else None)"

text \<open>\<^verbatim>\<open>product.update({where: {id}, data})\<close>: throws when no row has the id.\<close>

definition product_update ::
  "'n db \<Rightarrow> string \<Rightarrow> ('n product \<Rightarrow> 'n product) \<Rightarrow> error + 'n db" where
  "product_update s pid f =
     (case tbl_product s pid of
        None \<Rightarrow> Inl PrismaClientError
      | Some p \<Rightarrow> Inr (s\<lparr>tbl_product := (tbl_product s)(pid \<mapsto> f p)\<rparr>))"

text \<open>\<^verbatim>\<open>order.update({where: {id}, data: {status}})\<close>, returning the updated row.\<close>

definition order_update_status ::
  "'n db \<Rightarrow> nat \<Rightarrow> OrderStatus \<Rightarrow> (error + 'n order) \<times> 'n db" where
  "order_update_status s orderId st =
     (case order_findUnique s orderId of
        None \<Rightarrow> (Inl PrismaClientError, s)
      | Some ord \<Rightarrow>
          (Inr (ord\<lparr>o_status := st\<rparr>),
           s\<lparr>tbl_order := (tbl_order s)[orderId := ord\<lparr>o_status := st\<rparr>]\<rparr>))"

text \<open>
  \<^verbatim>\<open>prisma.$transaction(async (tx) => ...)\<close>: the body runs on the state and leaves a
  state behind, whether it returns or throws; when it throws, the transaction is rolled back
  and the state before it is what remains.
\<close>

definition transaction ::
  "('s \<Rightarrow> (error + 'a) \<times> 's) \<Rightarrow> 's \<Rightarrow> (error + 'a) \<times> 's" where
  "transaction body s =
     (case body s of
        (Inl e, tx) \<Rightarrow> (Inl e, s)
      | (Inr r, tx) \<Rightarrow> (Inr r, tx))"

section \<open>Checkout: createOrder\<close>

text \<open>A cart row with \<^verbatim>\<open>include: {product: {include: {vendor: true}}}\<close>.\<close>

record 'n cartItemWithProduct =
  ci_productId :: string
  ci_quantity :: int
  ci_product :: "'n product"
  ci_product_vendor :: vendor

definition includeProduct :: "'n db \<Rightarrow> cartItem \<Rightarrow> 'n cartItemWithProduct option" where
  "includeProduct s c =
     (case tbl_product s (c_productId c) of
        None \<Rightarrow> None
      | Some p \<Rightarrow>
          (case vendor_findUnique_id s (p_vendorId p) of
             None \<Rightarrow> None
           | Some v \<Rightarrow>
               Some \<lparr>ci_productId = c_productId c, ci_quantity = c_quantity c,
                     ci_product = p, ci_product_vendor = v\<rparr>))"

text \<open>
  \<^verbatim>\<open>cartItem.findMany({where: {userId}, include})\<close>. Both relations are required ones;
  the result is \<open>None\<close> when a row of the cart refers to a product, or its product to a
  vendor, that does not exist.
\<close>

definition cartItem_findMany ::
  "'n db \<Rightarrow> string \<Rightarrow> 'n cartItemWithProduct list option" where
  "cartItem_findMany s userId =
     those (map (includeProduct s) (filter (\<lambda>c. c_userId c = userId) (tbl_cartItem s)))"

definition cartItem_deleteMany :: "'n db \<Rightarrow> string \<Rightarrow> 'n db" where
  "cartItem_deleteMany s userId =
     s\<lparr>tbl_cartItem := filter (\<lambda>c. c_userId c \<noteq> userId) (tbl_cartItem s)\<rparr>"

fun validateCartItems :: "'n cartItemWithProduct list \<Rightarrow> error + unit" where
  "validateCartItems [] = Inr ()"
| "validateCartItems (item # rest) =
     (if \<not> p_isActive (ci_product item) then
        Inl (ORPCError BAD_REQUEST (ProductNoLongerAvailable (p_name (ci_product item))))
      else if \<not> v_isApproved (ci_product_vendor item) then
        Inl (ORPCError BAD_REQUEST (VendorNoLongerApproved (p_name (ci_product item))))
      else if ci_quantity item > p_stock (ci_product item) then
        Inl (ORPCError BAD_REQUEST
              (InsufficientStock (p_name (ci_product item)) (p_stock (ci_product item))))
      else validateCartItems rest)"

text \<open>
  A JavaScript \<^verbatim>\<open>Map\<close> keeps its keys in insertion order: an association list in which
  \<^verbatim>\<open>set\<close> replaces the value of a key that is there and appends a key that is not.
\<close>

fun Map_set :: "('k \<times> 'v) list \<Rightarrow> 'k \<Rightarrow> 'v \<Rightarrow> ('k \<times> 'v) list" where
  "Map_set [] k v = [(k, v)]"
| "Map_set ((k', v') # m) k v =
     (if k' = k then (k, v) # m else (k', v') # Map_set m k v)"

definition Map_has :: "('k \<times> 'v) list \<Rightarrow> 'k \<Rightarrow> bool" where
  "Map_has m k = (map_of m k \<noteq> None)"

definition Map_get :: "('k \<times> 'v) list \<Rightarrow> 'k \<Rightarrow> 'v option" where
  "Map_get m k = map_of m k"

text \<open>
  The loop of \<^verbatim>\<open>groupCartItemsByVendor\<close>; \<^verbatim>\<open>vendorGroups.get(vendorId)?.push(item)\<close>
  extends the array held by the map in place.
\<close>

fun groupCartItemsByVendor_loop ::
  "(string \<times> 'n cartItemWithProduct list) list \<Rightarrow> 'n cartItemWithProduct list \<Rightarrow>
   (string \<times> 'n cartItemWithProduct list) list" where
  "groupCartItemsByVendor_loop vendorGroups [] = vendorGroups"
| "groupCartItemsByVendor_loop vendorGroups (item # rest) =
     (let vendorId = p_vendorId (ci_product item);
          vendorGroups1 =
            (if \<not> Map_has vendorGroups vendorId then Map_set vendorGroups vendorId []
             else vendorGroups);
          vendorGroups2 =
            (case Map_get vendorGroups1 vendorId of
               None \<Rightarrow> vendorGroups1
             | Some arr \<Rightarrow> Map_set vendorGroups1 vendorId (arr @ [item]))
      in groupCartItemsByVendor_loop vendorGroups2 rest)"

definition groupCartItemsByVendor ::
  "'n cartItemWithProduct list \<Rightarrow> (string \<times> 'n cartItemWithProduct list) list" where
  "groupCartItemsByVendor cartItems = groupCartItemsByVendor_loop [] cartItems"

text \<open>Step 5 of the handler: the stock of each item's product is decremented.\<close>

fun decrementStock ::
  "'n db \<Rightarrow> 'n cartItemWithProduct list \<Rightarrow> (error + unit) \<times> 'n db" where
  "decrementStock tx [] = (Inr (), tx)"
| "decrementStock tx (item # rest) =
     (case product_update tx (ci_productId item)
             (\<lambda>p. p\<lparr>p_stock := p_stock p - ci_quantity item\<rparr>) of
        Inl e \<Rightarrow> (Inl e, tx)
      | Inr tx' \<Rightarrow> decrementStock tx' rest)"

definition orderTotal ::
  "(int \<Rightarrow> 'n) \<Rightarrow> 'n cartItemWithProduct list \<Rightarrow> 'n::{zero,plus,times}" where
  "orderTotal num items =
     foldl (\<lambda>sum item. sum + p_price (ci_product item) * num (ci_quantity item)) 0 items"

definition newOrder ::
  "(int \<Rightarrow> 'n) \<Rightarrow> string \<Rightarrow> string \<Rightarrow> string \<times> 'n cartItemWithProduct list \<Rightarrow>
   'n::{zero,plus,times} order" where
  "newOrder num userId shippingAddress g =
     \<lparr>o_userId = userId,
      o_vendorId = fst g,
      o_shippingAddress = shippingAddress,
      o_total = orderTotal num (snd g),
      o_status = PENDING,
      o_items = map (\<lambda>item. \<lparr>oi_productId = ci_productId item,
                               oi_quantity = ci_quantity item,
                               oi_price = p_price (ci_product item)\<rparr>) (snd g)\<rparr>"

definition order_create :: "'n db \<Rightarrow> 'n order \<Rightarrow> 'n db" where
  "order_create tx ord = tx\<lparr>tbl_order := tbl_order tx @ [ord]\<rparr>"

text \<open>Step 4: the loop over \<^verbatim>\<open>vendorGroups.entries()\<close>.\<close>

fun createOrder_loop ::
  "(int \<Rightarrow> 'n) \<Rightarrow> string \<Rightarrow> string \<Rightarrow> 'n db \<Rightarrow> 'n order list \<Rightarrow>
   (string \<times> 'n cartItemWithProduct list) list \<Rightarrow>
   (error + 'n::{zero,plus,times} order list) \<times> 'n db" where
  "createOrder_loop num userId shippingAddress tx createdOrders [] =
     (Inr createdOrders, tx)"
| "createOrder_loop num userId shippingAddress tx createdOrders (g # rest) =
     (let ord = newOrder num userId shippingAddress g;
          tx1 = order_create tx ord
      in case decrementStock tx1 (snd g) of
           (Inl e, tx2) \<Rightarrow> (Inl e, tx2)
         | (Inr u, tx2) \<Rightarrow>
             createOrder_loop num userId shippingAddress tx2 (createdOrders @ [ord]) rest)"

text \<open>The body of the transaction of \<^verbatim>\<open>createOrder\<close>.\<close>

definition createOrder_tx ::
  "(int \<Rightarrow> 'n) \<Rightarrow> string \<Rightarrow> string \<Rightarrow> 'n db \<Rightarrow>
   (error + 'n::{zero,plus,times} order list) \<times> 'n db" where
  "createOrder_tx num userId shippingAddress tx =
     (case cartItem_findMany tx userId of
        None \<Rightarrow> (Inl PrismaClientError, tx)
      | Some cartItems \<Rightarrow>
          if length cartItems = 0 then (Inl (ORPCError BAD_REQUEST CartIsEmpty), tx)
          else
            (case validateCartItems cartItems of
               Inl e \<Rightarrow> (Inl e, tx)
             | Inr u \<Rightarrow>
                 (case createOrder_loop num userId shippingAddress tx []
                         (groupCartItemsByVendor cartItems) of
                    (Inl e, tx') \<Rightarrow> (Inl e, tx')
                  | (Inr createdOrders, tx') \<Rightarrow>
                      (Inr createdOrders, cartItem_deleteMany tx' userId))))"

definition createOrder ::
  "(int \<Rightarrow> 'n) \<Rightarrow> 'n db \<Rightarrow> string \<Rightarrow> string \<Rightarrow>
   (error + 'n::{zero,plus,times} order list) \<times> 'n db" where
  "createOrder num s userId shippingAddress =
     transaction (createOrder_tx num userId shippingAddress) s"

section \<open>Order status: updateOrderStatus and cancelOrder\<close>

text \<open>\<^verbatim>\<open>getVendorProfile\<close> of the order router.\<close>

definition getVendorProfile :: "'n db \<Rightarrow> string \<Rightarrow> error + vendor" where
  "getVendorProfile s userId =
     (case vendor_findUnique_userId s userId of
        None \<Rightarrow> Inl (ORPCError FORBIDDEN MustBeVendor)
      | Some vendor \<Rightarrow> Inr vendor)"

text \<open>
  The input schema of \<^verbatim>\<open>updateOrderStatus\<close> types \<^verbatim>\<open>status\<close> as
  \<^verbatim>\<open>z.enum(["CONFIRMED", "SHIPPED", "DELIVERED", "CANCELLED"])\<close>.
\<close>

datatype StatusInput = To_CONFIRMED | To_SHIPPED | To_DELIVERED | To_CANCELLED

fun statusValue :: "StatusInput \<Rightarrow> OrderStatus" where
  "statusValue To_CONFIRMED = CONFIRMED"
| "statusValue To_SHIPPED = SHIPPED"
| "statusValue To_DELIVERED = DELIVERED"
| "statusValue To_CANCELLED = CANCELLED"

text \<open>
  The loop \<^verbatim>\<open>for (const item of order.items)\<close> that both handlers run inside their
  transaction: the stock of each item's product is incremented by the item's quantity.
\<close>

fun restoreStock :: "'n db \<Rightarrow> 'n orderItem list \<Rightarrow> (error + unit) \<times> 'n db" where
  "restoreStock tx [] = (Inr (), tx)"
| "restoreStock tx (item # rest) =
     (case product_update tx (oi_productId item)
             (\<lambda>p. p\<lparr>p_stock := p_stock p + oi_quantity item\<rparr>) of
        Inl e \<Rightarrow> (Inl e, tx)
      | Inr tx' \<Rightarrow> restoreStock tx' rest)"

definition cancel_tx ::
  "'n order \<Rightarrow> nat \<Rightarrow> OrderStatus \<Rightarrow> 'n db \<Rightarrow> (error + 'n order) \<times> 'n db" where
  "cancel_tx ord orderId st tx =
     (case restoreStock tx (o_items ord) of
        (Inl e, tx') \<Rightarrow> (Inl e, tx')
      | (Inr u, tx') \<Rightarrow> order_update_status tx' orderId st)"

definition updateOrderStatus ::
  "'n db \<Rightarrow> string \<Rightarrow> nat \<Rightarrow> StatusInput \<Rightarrow> (error + 'n order) \<times> 'n db" where
  "updateOrderStatus s userId orderId status =
     (case getVendorProfile s userId of
        Inl e \<Rightarrow> (Inl e, s)
      | Inr vendor \<Rightarrow>
          (case order_findUnique s orderId of
             None \<Rightarrow> (Inl (ORPCError NOT_FOUND OrderNotFound), s)
           | Some ord \<Rightarrow>
               if o_vendorId ord \<noteq> v_id vendor then
                 (Inl (ORPCError FORBIDDEN OnlyUpdateOwnOrders), s)
               else if o_status ord = CANCELLED then
                 (Inl (ORPCError BAD_REQUEST CannotUpdateCancelled), s)
               else if o_status ord = DELIVERED then
                 (Inl (ORPCError BAD_REQUEST CannotUpdateDelivered), s)
               else if status = To_CANCELLED then
                 transaction (cancel_tx ord orderId (statusValue status)) s
               else order_update_status s orderId (statusValue status)))"

text \<open>\<^verbatim>\<open>cancelOrder\<close>; the optional \<^verbatim>\<open>reason\<close> of its input is not used by the handler.\<close>

definition cancelOrder ::
  "'n db \<Rightarrow> string \<Rightarrow> nat \<Rightarrow> string option \<Rightarrow> (error + 'n order) \<times> 'n db" where
  "cancelOrder s userId orderId reason =
     (case order_findUnique s orderId of
        None \<Rightarrow> (Inl (ORPCError NOT_FOUND OrderNotFound), s)
      | Some ord \<Rightarrow>
          if o_userId ord \<noteq> userId then
            (Inl (ORPCError FORBIDDEN OnlyCancelOwnOrders), s)
          else if o_status ord \<noteq> PENDING \<and> o_status ord \<noteq> CONFIRMED then
            (Inl (ORPCError BAD_REQUEST (CannotCancelWithStatus (o_status ord))), s)
          else transaction (cancel_tx ord orderId CANCELLED) s)"

section \<open>Product router\<close>

text \<open>
  \<^verbatim>\<open>getVendorProfile\<close> of the product router, which also requires the vendor to be
  approved.
\<close>

definition product_getVendorProfile :: "'n db \<Rightarrow> string \<Rightarrow> error + vendor" where
  "product_getVendorProfile s userId =
     (case vendor_findUnique_userId s userId of
        None \<Rightarrow> Inl (ORPCError FORBIDDEN MustBeVendor)
      | Some vendor \<Rightarrow>
          if \<not> v_isApproved vendor then Inl (ORPCError FORBIDDEN VendorPendingApproval)
          else Inr vendor)"

definition category_findUnique :: "'n db \<Rightarrow> string \<Rightarrow> string option" where
  "category_findUnique s cid = find (\<lambda>c. c = cid) (tbl_category s)"

record 'n updateProductInput =
  up_productId :: string
  up_name :: "string option"
  up_description :: "string option"
  up_price :: "'n option"
  up_stock :: "int option"
  up_categoryId :: "string option"
  up_isActive :: "bool option"

text \<open>
  \<^verbatim>\<open>data: updateData\<close>, the input without \<^verbatim>\<open>productId\<close>: a field that is present
  replaces the column, an absent one leaves it.
\<close>

definition applyUpdateData :: "'n updateProductInput \<Rightarrow> 'n product \<Rightarrow> 'n product" where
  "applyUpdateData input p =
     p\<lparr>p_name := (case up_name input of None \<Rightarrow> p_name p | Some x \<Rightarrow> x),
       p_description := (case up_description input of None \<Rightarrow> p_description p | Some x \<Rightarrow> x),
       p_price := (case up_price input of None \<Rightarrow> p_price p | Some x \<Rightarrow> x),
       p_stock := (case up_stock input of None \<Rightarrow> p_stock p | Some x \<Rightarrow> x),
       p_categoryId := (case up_categoryId input of None \<Rightarrow> p_categoryId p | Some x \<Rightarrow> x),
       p_isActive := (case up_isActive input of None \<Rightarrow> p_isActive p | Some x \<Rightarrow> x)\<rparr>"

text \<open>
  \<^verbatim>\<open>if (input.categoryId)\<close> holds of a string that is present and not empty.
\<close>

definition updateProduct ::
  "'n db \<Rightarrow> string \<Rightarrow> 'n updateProductInput \<Rightarrow> (error + 'n product) \<times> 'n db" where
  "updateProduct s userId input =
     (case product_getVendorProfile s userId of
        Inl e \<Rightarrow> (Inl e, s)
      | Inr vendor \<Rightarrow>
          (case tbl_product s (up_productId input) of
             None \<Rightarrow> (Inl (ORPCError NOT_FOUND ProductNotFound), s)
           | Some existingProduct \<Rightarrow>
               if p_vendorId existingProduct \<noteq> v_id vendor then
                 (Inl (ORPCError FORBIDDEN OnlyUpdateOwnProducts), s)
               else if (case up_categoryId input of
                          None \<Rightarrow> False
                        | Some cid \<Rightarrow> cid \<noteq> [] \<and> category_findUnique s cid = None) then
                 (Inl (ORPCError NOT_FOUND CategoryNotFound), s)
               else
                 (case product_update s (up_productId input) (applyUpdateData input) of
                    Inl e \<Rightarrow> (Inl e, s)
                  | Inr s' \<Rightarrow>
                      (Inr (applyUpdateData input existingProduct), s'))))"

definition deleteProduct :: "'n db \<Rightarrow> string \<Rightarrow> string \<Rightarrow> (error + unit) \<times> 'n db" where
  "deleteProduct s userId productId =
     (case product_getVendorProfile s userId of
        Inl e \<Rightarrow> (Inl e, s)
      | Inr vendor \<Rightarrow>
          (case tbl_product s productId of
             None \<Rightarrow> (Inl (ORPCError NOT_FOUND ProductNotFound), s)
           | Some p \<Rightarrow>
               if p_vendorId p \<noteq> v_id vendor then
                 (Inl (ORPCError FORBIDDEN OnlyDeleteOwnProducts), s)
               else
                 (case product_update s productId (\<lambda>p. p\<lparr>p_isActive := False\<rparr>) of
                    Inl e \<Rightarrow> (Inl e, s)
                  | Inr s' \<Rightarrow> (Inr (), s'))))"

record 'n createProductInput =
  cp_name :: string
  cp_description :: string
  cp_price :: 'n
  cp_stock :: int
  cp_categoryId :: string

text \<open>
  \<^verbatim>\<open>createProduct\<close>. The id that Prisma generates for the new row is the argument
  \<open>newId\<close>; the create throws when a row has that id already. The image rows created with
  the product belong to a table that is not modelled.
\<close>

definition createProduct ::
  "'n db \<Rightarrow> string \<Rightarrow> string \<Rightarrow> 'n createProductInput \<Rightarrow> (error + 'n product) \<times> 'n db" where
  "createProduct s userId newId input =
     (case product_getVendorProfile s userId of
        Inl e \<Rightarrow> (Inl e, s)
      | Inr vendor \<Rightarrow>
          (case category_findUnique s (cp_categoryId input) of
             None \<Rightarrow> (Inl (ORPCError NOT_FOUND CategoryNotFound), s)
           | Some category \<Rightarrow>
               (let p = \<lparr>p_vendorId = v_id vendor,
                         p_categoryId = cp_categoryId input,
                         p_name = cp_name input,
                         p_description = cp_description input,
                         p_price = cp_price input,
                         p_stock = cp_stock input,
                         p_isActive = True\<rparr>
                in case tbl_product s newId of
                     Some q \<Rightarrow> (Inl PrismaClientError, s)
                   | None \<Rightarrow> (Inr p, s\<lparr>tbl_product := (tbl_product s)(newId \<mapsto> p)\<rparr>))))"

section \<open>Sequences of calls\<close>

text \<open>
  The procedures that write the order, order item and product tables are the six above.
  The procedures of the other routers (cart, vendor, admin, review) write cart items and
  vendors, and tables the state does not hold; \<open>OtherRouter\<close> stands for any of them and
  leaves an arbitrary vendor and cart item table behind.
\<close>

datatype 'n call =
    CreateOrder string string
  | UpdateOrderStatus string nat StatusInput
  | CancelOrder string nat "string option"
  | CreateProduct string string "'n createProductInput"
  | UpdateProduct string "'n updateProductInput"
  | DeleteProduct string string
  | OtherRouter "vendor list" "cartItem list"

fun exec :: "(int \<Rightarrow> 'n) \<Rightarrow> 'n db \<Rightarrow> 'n call \<Rightarrow> 'n::{zero,plus,times} db" where
  "exec num s (CreateOrder userId shippingAddress) =
     snd (createOrder num s userId shippingAddress)"
| "exec num s (UpdateOrderStatus userId orderId status) =
     snd (updateOrderStatus s userId orderId status)"
| "exec num s (CancelOrder userId orderId reason) =
     snd (cancelOrder s userId orderId reason)"
| "exec num s (CreateProduct userId newId input) =
     snd (createProduct s userId newId input)"
| "exec num s (UpdateProduct userId input) =
     snd (updateProduct s userId input)"
| "exec num s (DeleteProduct userId productId) =
     snd (deleteProduct s userId productId)"
| "exec num s (OtherRouter vs cs) = s\<lparr>tbl_vendor := vs, tbl_cartItem := cs\<rparr>"

definition run :: "(int \<Rightarrow> 'n) \<Rightarrow> 'n db \<Rightarrow> 'n call list \<Rightarrow> 'n::{zero,plus,times} db" where
  "run num s calls = foldl (exec num) s calls"

section \<open>Notions used to state the properties\<close>

text \<open>The cart of a user: the rows of the cart item table with the user's id.\<close>

definition userCart :: "'n db \<Rightarrow> string \<Rightarrow> cartItem list" where
  "userCart s userId = filter (\<lambda>c. c_userId c = userId) (tbl_cartItem s)"

text \<open>
  A cart line is invalid when its product is inactive, the product's vendor is not
  approved, or its quantity is greater than the product's stock.
\<close>

definition lineInvalid :: "'n db \<Rightarrow> cartItem \<Rightarrow> bool" where
  "lineInvalid s c =
     (case tbl_product s (c_productId c) of
        None \<Rightarrow> False
      | Some p \<Rightarrow>
          \<not> p_isActive p \<or>
          (case vendor_findUnique_id s (p_vendorId p) of
             None \<Rightarrow> False
           | Some v \<Rightarrow> \<not> v_isApproved v) \<or>
          c_quantity c > p_stock p)"

text \<open>The quantity of a product that a user's cart asks for, over all its lines.\<close>

definition purchased :: "'n db \<Rightarrow> string \<Rightarrow> string \<Rightarrow> int" where
  "purchased s userId pid =
     sum_list (map c_quantity (filter (\<lambda>c. c_productId c = pid) (userCart s userId)))"

text \<open>The vendor of a cart line's product, and the order item a cart line becomes.\<close>

definition lineVendor :: "'n db \<Rightarrow> cartItem \<Rightarrow> string" where
  "lineVendor s c = p_vendorId (the (tbl_product s (c_productId c)))"

definition lineItem :: "'n db \<Rightarrow> cartItem \<Rightarrow> 'n orderItem" where
  "lineItem s c =
     \<lparr>oi_productId = c_productId c, oi_quantity = c_quantity c,
      oi_price = p_price (the (tbl_product s (c_productId c)))\<rparr>"

text \<open>The quantity of a product over the items of an order.\<close>

definition restoreQty :: "'n orderItem list \<Rightarrow> string \<Rightarrow> int" where
  "restoreQty items pid =
     sum_list (map oi_quantity (filter (\<lambda>i. oi_productId i = pid) items))"

text \<open>The state in which the stock of every product \<open>pid\<close> is changed by \<open>d pid\<close>.\<close>

definition adjustStock :: "(string \<Rightarrow> int) \<Rightarrow> 'n db \<Rightarrow> 'n db" where
  "adjustStock d s =
     s\<lparr>tbl_product :=
         (\<lambda>pid. map_option (\<lambda>p. p\<lparr>p_stock := p_stock p + d pid\<rparr>) (tbl_product s pid))\<rparr>"

subsection \<open>Auxiliary notions of the proofs\<close>

definition rowQty :: "'n cartItemWithProduct list \<Rightarrow> string \<Rightarrow> int" where
  "rowQty items pid = sum_list (map ci_quantity (filter (\<lambda>i. ci_productId i = pid) items))"

definition rowValid :: "'n cartItemWithProduct \<Rightarrow> bool" where
  "rowValid item =
     (p_isActive (ci_product item) \<and> v_isApproved (ci_product_vendor item) \<and>
      ci_quantity item \<le> p_stock (ci_product item))"

definition vid :: "'n cartItemWithProduct \<Rightarrow> string" where
  "vid item = p_vendorId (ci_product item)"

definition toOrderItem :: "'n cartItemWithProduct \<Rightarrow> 'n orderItem" where
  "toOrderItem item =
     \<lparr>oi_productId = ci_productId item, oi_quantity = ci_quantity item,
      oi_price = p_price (ci_product item)\<rparr>"

text \<open>One round of the loop of \<^verbatim>\<open>groupCartItemsByVendor\<close>, in closed form.\<close>

definition group_step ::
  "(string \<times> 'n cartItemWithProduct list) list \<Rightarrow> 'n cartItemWithProduct \<Rightarrow>
   (string \<times> 'n cartItemWithProduct list) list" where
  "group_step m item =
     Map_set m (vid item)
       ((case map_of m (vid item) of None \<Rightarrow> [] | Some arr \<Rightarrow> arr) @ [item])"

definition groupsQty :: "(string \<times> 'n cartItemWithProduct list) list \<Rightarrow> string \<Rightarrow> int" where
  "groupsQty gs pid = sum_list (map (\<lambda>g. rowQty (snd g) pid) gs)"

text \<open>
  What a call may do to a row of the order table: nothing, or give a new status, which is
  not \<^verbatim>\<open>PENDING\<close>, to an order that is neither delivered nor cancelled. The order
  table itself only grows.
\<close>

definition order_step :: "'n order \<Rightarrow> 'n order \<Rightarrow> bool" where
  "order_step ord ord' =
     (ord' = ord \<or>
      (\<exists>st. ord' = ord\<lparr>o_status := st\<rparr> \<and> st \<noteq> PENDING \<and>
            o_status ord \<noteq> DELIVERED \<and> o_status ord \<noteq> CANCELLED))"

definition orders_step :: "'n order list \<Rightarrow> 'n order list \<Rightarrow> bool" where
  "orders_step os os' =
     (length os \<le> length os' \<and> (\<forall>i<length os. order_step (os ! i) (os' ! i)))"

text \<open>
  The foreign key of the order item table: the items of every order refer to products
  that exist.
\<close>

definition ordersRefer :: "'n db \<Rightarrow> bool" where
  "ordersRefer s =
     (\<forall>ord\<in>set (tbl_order s). \<forall>it\<in>set (o_items ord). oi_productId it \<in> dom (tbl_product s))"
subsection \<open>A small shop\<close>

text \<open>
  Two approved vendors with one product each, and the cart of one customer with a line
  for each product: two of \<open>P1\<close> (stock \<open>stock1\<close>, price 10) and one of \<open>P2\<close>
  (stock \<open>stock2\<close>, price 5).
\<close>

definition ex_vendors :: "vendor list" where
  "ex_vendors =
     [\<lparr>v_id = ''V1'', v_userId = ''alice'', v_isApproved = True\<rparr>,
      \<lparr>v_id = ''V2'', v_userId = ''bob'', v_isApproved = True\<rparr>]"

definition ex_product :: "string \<Rightarrow> string \<Rightarrow> int \<Rightarrow> int \<Rightarrow> int product" where
  "ex_product vendorId name price stock =
     \<lparr>p_vendorId = vendorId, p_categoryId = ''C1'', p_name = name,
      p_description = ''a product of the example shop'', p_price = price, p_stock = stock,
      p_isActive = True\<rparr>"

definition ex_cart :: "cartItem list" where
  "ex_cart =
     [\<lparr>c_userId = ''carol'', c_productId = ''P1'', c_quantity = 2\<rparr>,
      \<lparr>c_userId = ''carol'', c_productId = ''P2'', c_quantity = 1\<rparr>]"

definition ex_shop :: "int \<Rightarrow> int \<Rightarrow> int db" where
  "ex_shop stock1 stock2 =
     \<lparr>tbl_vendor = ex_vendors,
      tbl_category = [''C1''],
      tbl_product = [''P1'' \<mapsto> ex_product ''V1'' ''P1'' 10 stock1,
                     ''P2'' \<mapsto> ex_product ''V2'' ''P2'' 5 stock2],
      tbl_cartItem = ex_cart,
      tbl_order = []\<rparr>"

definition ex_address :: string where
  "ex_address = ''1 Market Street, Kampala''"

text \<open>
  The two orders that the checkout of this cart creates, the state with these orders
  placed (the first of them in a given status, the cart empty, the stock as the checkout
  of \<open>ex_shop 5 2\<close> leaves it), and a change of the price of \<open>P1\<close>.
\<close>

definition ex_order1 :: "OrderStatus \<Rightarrow> int order" where
  "ex_order1 st =
     \<lparr>o_userId = ''carol'', o_vendorId = ''V1'', o_shippingAddress = ex_address,
      o_total = 20, o_status = st,
      o_items = [\<lparr>oi_productId = ''P1'', oi_quantity = 2, oi_price = 10\<rparr>]\<rparr>"

definition ex_order2 :: "int order" where
  "ex_order2 =
     \<lparr>o_userId = ''carol'', o_vendorId = ''V2'', o_shippingAddress = ex_address,
      o_total = 5, o_status = PENDING,
      o_items = [\<lparr>oi_productId = ''P2'', oi_quantity = 1, oi_price = 5\<rparr>]\<rparr>"

definition ex_orders :: "int order list" where
  "ex_orders = [ex_order1 PENDING, ex_order2]"

definition ex_placed :: "OrderStatus \<Rightarrow> int db" where
  "ex_placed st =
     \<lparr>tbl_vendor = ex_vendors,
      tbl_category = [''C1''],
      tbl_product = [''P1'' \<mapsto> ex_product ''V1'' ''P1'' 10 3,
                     ''P2'' \<mapsto> ex_product ''V2'' ''P2'' 5 1],
      tbl_cartItem = [],
      tbl_order = [ex_order1 st, ex_order2]\<rparr>"

definition ex_newPrice :: "int updateProductInput" where
  "ex_newPrice =
     \<lparr>up_productId = ''P1'', up_name = None, up_description = None, up_price = Some 99,
      up_stock = None, up_categoryId = None, up_isActive = None\<rparr>"


section \<open>Lemmas on the checkout\<close>

lemma those_Some: "those xs = Some ys \<Longrightarrow> xs = map Some ys"
  by (induction xs arbitrary: ys) (auto split: option.splits)

lemma validateCartItems_Inr:
  "(validateCartItems rows = Inr u) =
   (\<forall>item\<in>set rows. p_isActive (ci_product item) \<and> v_isApproved (ci_product_vendor item) \<and>
        ci_quantity item \<le> p_stock (ci_product item))"
  by (induction rows) auto

lemma validateCartItems_Inl:
  "validateCartItems rows = Inl e \<Longrightarrow> \<exists>m. e = ORPCError BAD_REQUEST m"
  by (induction rows) (auto split: if_splits)

lemma map_of_Map_set: "map_of (Map_set m k v) = (map_of m)(k \<mapsto> v)"
  by (induction m k v rule: Map_set.induct) auto

lemma keys_Map_set:
  "map fst (Map_set m k v) = (if k \<in> fst ` set m then map fst m else map fst m @ [k])"
  by (induction m k v rule: Map_set.induct) (auto simp: image_iff)

lemma Map_set_idem: "Map_set (Map_set m k v) k w = Map_set m k w"
  by (induction m k v rule: Map_set.induct) auto

lemma group_loop_Cons:
  "groupCartItemsByVendor_loop m (item # rest) =
   groupCartItemsByVendor_loop (group_step m item) rest"
  by (auto simp: group_step_def vid_def Let_def Map_has_def Map_get_def map_of_Map_set
        Map_set_idem split: option.splits)

lemma map_of_group_step:
  "map_of (group_step m item) =
   (map_of m)(vid item \<mapsto> (case map_of m (vid item) of None \<Rightarrow> [] | Some arr \<Rightarrow> arr) @ [item])"
  by (simp add: group_step_def map_of_Map_set)

lemma distinct_Map_set: "distinct (map fst (Map_set m k v)) = distinct (map fst m)"
  by (induction m k v rule: Map_set.induct) (auto simp: keys_Map_set image_iff)

lemma distinct_group_step: "distinct (map fst (group_step m item)) = distinct (map fst m)"
  by (simp add: group_step_def distinct_Map_set)

lemma group_loop_distinct:
  "distinct (map fst m) \<Longrightarrow> distinct (map fst (groupCartItemsByVendor_loop m rows))"
  by (induction rows arbitrary: m)
     (simp_all del: groupCartItemsByVendor_loop.simps(2)
        add: group_loop_Cons distinct_group_step)

lemma group_loop_map_of:
  "map_of (groupCartItemsByVendor_loop m rows) v =
     (if v \<in> dom (map_of m) \<union> vid ` set rows
      then Some ((case map_of m v of None \<Rightarrow> [] | Some arr \<Rightarrow> arr) @ filter (\<lambda>i. vid i = v) rows)
      else None)"
proof (induction rows arbitrary: m)
  case Nil
  then show ?case by (auto split: option.splits)
next
  case (Cons item rest)
  show ?case
    by (simp del: groupCartItemsByVendor_loop.simps(2)
          add: group_loop_Cons Cons.IH map_of_group_step)
       (auto split: option.splits)
qed

lemma group_map_of:
  "map_of (groupCartItemsByVendor rows) v =
     (if v \<in> vid ` set rows then Some (filter (\<lambda>i. vid i = v) rows) else None)"
  by (simp add: groupCartItemsByVendor_def group_loop_map_of)

lemma group_distinct: "distinct (map fst (groupCartItemsByVendor rows))"
  by (simp add: groupCartItemsByVendor_def group_loop_distinct)

lemma group_keys: "fst ` set (groupCartItemsByVendor rows) = vid ` set rows"
proof -
  have "dom (map_of (groupCartItemsByVendor rows)) = vid ` set rows"
    by (auto simp: group_map_of dom_def)
  then show ?thesis by (simp add: dom_map_of_conv_image_fst)
qed

lemma group_entry:
  assumes "g \<in> set (groupCartItemsByVendor rows)"
  shows "snd g = filter (\<lambda>i. vid i = fst g) rows" and "fst g \<in> vid ` set rows"
proof -
  have "map_of (groupCartItemsByVendor rows) (fst g) = Some (snd g)"
    using assms group_distinct[of rows] by (metis map_of_is_SomeI prod.collapse)
  then show "snd g = filter (\<lambda>i. vid i = fst g) rows" and "fst g \<in> vid ` set rows"
    by (auto simp: group_map_of split: if_splits)
qed

lemma groupsQty_Map_set:
  "map_of m k = Some arr \<Longrightarrow>
   groupsQty (Map_set m k w) pid = groupsQty m pid - rowQty arr pid + rowQty w pid"
  by (induction m k w rule: Map_set.induct) (auto simp: groupsQty_def)

lemma groupsQty_Map_set_new:
  "map_of m k = None \<Longrightarrow> groupsQty (Map_set m k w) pid = groupsQty m pid + rowQty w pid"
  by (induction m k w rule: Map_set.induct) (auto simp: groupsQty_def split: if_splits)

lemma groupsQty_group_step:
  "groupsQty (group_step m item) pid = groupsQty m pid + rowQty [item] pid"
  by (cases "map_of m (vid item)")
     (simp_all add: group_step_def groupsQty_Map_set groupsQty_Map_set_new rowQty_def)

lemma groupsQty_loop:
  "groupsQty (groupCartItemsByVendor_loop m rows) pid = groupsQty m pid + rowQty rows pid"
  by (induction rows arbitrary: m)
     (simp_all del: groupCartItemsByVendor_loop.simps(2)
        add: group_loop_Cons groupsQty_group_step rowQty_def)

lemma groupsQty_group: "groupsQty (groupCartItemsByVendor rows) pid = rowQty rows pid"
  by (simp add: groupCartItemsByVendor_def groupsQty_loop) (simp add: groupsQty_def)

lemma adjustStock_fields [simp]:
  "tbl_vendor (adjustStock d s) = tbl_vendor s"
  "tbl_category (adjustStock d s) = tbl_category s"
  "tbl_cartItem (adjustStock d s) = tbl_cartItem s"
  "tbl_order (adjustStock d s) = tbl_order s"
  by (simp_all add: adjustStock_def)

lemma tbl_product_adjustStock:
  "tbl_product (adjustStock d s) pid =
   map_option (\<lambda>p. p\<lparr>p_stock := p_stock p + d pid\<rparr>) (tbl_product s pid)"
  by (simp add: adjustStock_def)

lemma adjustStock_zero: "adjustStock (\<lambda>pid. 0) s = s"
  by (simp add: adjustStock_def option.map_ident)

lemma adjustStock_update:
  assumes "tbl_product s pid = Some p"
  shows "adjustStock d (s\<lparr>tbl_product := (tbl_product s)(pid \<mapsto> p\<lparr>p_stock := p_stock p + q\<rparr>)\<rparr>) =
         adjustStock (\<lambda>x. (if x = pid then q else 0) + d x) s"
  using assms by (auto simp: adjustStock_def fun_eq_iff)

lemma adjustStock_cong: "(\<And>pid. d pid = e pid) \<Longrightarrow> adjustStock d s = adjustStock e s"
  by (simp add: adjustStock_def)

lemma dom_adjustStock [simp]: "dom (tbl_product (adjustStock d s)) = dom (tbl_product s)"
  by (auto simp: dom_def adjustStock_def)

lemma rowQty_Cons:
  "rowQty (item # rest) pid = (if ci_productId item = pid then ci_quantity item else 0) + rowQty rest pid"
  by (simp add: rowQty_def)

lemma decrementStock_ok:
  "\<forall>i\<in>set items. ci_productId i \<in> dom (tbl_product tx) \<Longrightarrow>
   decrementStock tx items = (Inr (), adjustStock (\<lambda>pid. - rowQty items pid) tx)"
proof (induction items arbitrary: tx)
  case Nil
  then show ?case by (simp add: rowQty_def adjustStock_zero)
next
  case (Cons item rest)
  from Cons.prems obtain p where p: "tbl_product tx (ci_productId item) = Some p"
    by auto
  let ?tx1 = "tx\<lparr>tbl_product := (tbl_product tx)(ci_productId item \<mapsto> p\<lparr>p_stock := p_stock p + (- ci_quantity item)\<rparr>)\<rparr>"
  have "\<forall>i\<in>set rest. ci_productId i \<in> dom (tbl_product ?tx1)"
    using Cons.prems by auto
  then have "decrementStock ?tx1 rest = (Inr (), adjustStock (\<lambda>pid. - rowQty rest pid) ?tx1)"
    by (rule Cons.IH)
  moreover have "adjustStock (\<lambda>pid. - rowQty rest pid) ?tx1 =
                 adjustStock (\<lambda>pid. - rowQty (item # rest) pid) tx"
    by (simp only: adjustStock_update[OF p]) (rule adjustStock_cong, simp add: rowQty_Cons)
  ultimately show ?case
    using p by (simp add: product_update_def)
qed

lemma restoreQty_Cons:
  "restoreQty (item # rest) pid = (if oi_productId item = pid then oi_quantity item else 0) + restoreQty rest pid"
  by (simp add: restoreQty_def)

lemma restoreStock_ok:
  "\<forall>i\<in>set items. oi_productId i \<in> dom (tbl_product tx) \<Longrightarrow>
   restoreStock tx items = (Inr (), adjustStock (restoreQty items) tx)"
proof (induction items arbitrary: tx)
  case Nil
  then show ?case by (simp add: restoreQty_def adjustStock_zero)
next
  case (Cons item rest)
  from Cons.prems obtain p where p: "tbl_product tx (oi_productId item) = Some p"
    by auto
  let ?tx1 = "tx\<lparr>tbl_product := (tbl_product tx)(oi_productId item \<mapsto> p\<lparr>p_stock := p_stock p + oi_quantity item\<rparr>)\<rparr>"
  have "\<forall>i\<in>set rest. oi_productId i \<in> dom (tbl_product ?tx1)"
    using Cons.prems by auto
  then have "restoreStock ?tx1 rest = (Inr (), adjustStock (restoreQty rest) ?tx1)"
    by (rule Cons.IH)
  moreover have "adjustStock (restoreQty rest) ?tx1 = adjustStock (restoreQty (item # rest)) tx"
    by (simp only: adjustStock_update[OF p]) (rule adjustStock_cong, simp add: restoreQty_Cons)
  ultimately show ?case
    using p by (simp add: product_update_def)
qed

lemma groupsQty_Cons: "groupsQty (g # gs) pid = rowQty (snd g) pid + groupsQty gs pid"
  by (simp add: groupsQty_def)

lemma createOrder_loop_ok:
  "\<forall>g\<in>set gs. \<forall>i\<in>set (snd g). ci_productId i \<in> dom (tbl_product tx) \<Longrightarrow>
   createOrder_loop num userId addr tx created gs =
     (Inr (created @ map (newOrder num userId addr) gs),
      (adjustStock (\<lambda>pid. - groupsQty gs pid) tx)
        \<lparr>tbl_order := tbl_order tx @ map (newOrder num userId addr) gs\<rparr>)"
proof (induction gs arbitrary: tx created)
  case Nil
  then show ?case by (simp add: groupsQty_def adjustStock_zero)
next
  case (Cons g rest)
  let ?ord = "newOrder num userId addr g"
  let ?tx1 = "order_create tx ?ord"
  let ?tx2 = "adjustStock (\<lambda>pid. - rowQty (snd g) pid) ?tx1"
  have dom1: "dom (tbl_product ?tx1) = dom (tbl_product tx)"
    by (simp add: order_create_def)
  have "decrementStock ?tx1 (snd g) = (Inr (), ?tx2)"
    using Cons.prems by (intro decrementStock_ok) (simp add: dom1)
  moreover have "createOrder_loop num userId addr ?tx2 (created @ [?ord]) rest =
     (Inr ((created @ [?ord]) @ map (newOrder num userId addr) rest),
      (adjustStock (\<lambda>pid. - groupsQty rest pid) ?tx2)
        \<lparr>tbl_order := tbl_order ?tx2 @ map (newOrder num userId addr) rest\<rparr>)"
    using Cons.prems by (intro Cons.IH) (simp add: dom1)
  moreover have "(adjustStock (\<lambda>pid. - groupsQty rest pid) ?tx2)
        \<lparr>tbl_order := tbl_order ?tx2 @ map (newOrder num userId addr) rest\<rparr> =
      (adjustStock (\<lambda>pid. - groupsQty (g # rest) pid) tx)
        \<lparr>tbl_order := tbl_order tx @ map (newOrder num userId addr) (g # rest)\<rparr>"
    by (simp add: adjustStock_def order_create_def groupsQty_Cons option.map_comp comp_def
          algebra_simps)
  ultimately show ?case by (simp add: Let_def)
qed

lemma includeProduct_Some:
  assumes "includeProduct s c = Some r"
  shows "ci_productId r = c_productId c" "ci_quantity r = c_quantity c"
    "tbl_product s (c_productId c) = Some (ci_product r)"
    "vendor_findUnique_id s (p_vendorId (ci_product r)) = Some (ci_product_vendor r)"
    "rowValid r = (\<not> lineInvalid s c)"
  using assms
  by (auto simp: includeProduct_def lineInvalid_def rowValid_def split: option.splits)

lemma findMany_rows:
  "cartItem_findMany s userId = Some rows \<Longrightarrow>
   map (includeProduct s) (userCart s userId) = map Some rows"
  by (simp add: cartItem_findMany_def userCart_def those_Some)

lemma rows_rel:
  assumes "map (includeProduct s) cart = map Some rows"
  shows "list_all2 (\<lambda>c r. includeProduct s c = Some r) cart rows"
  using assms
proof (induction cart arbitrary: rows)
  case Nil
  then show ?case by simp
next
  case (Cons c cart)
  then show ?case by (cases rows) auto
qed

lemma findMany_rel:
  "cartItem_findMany s userId = Some rows \<Longrightarrow>
   list_all2 (\<lambda>c r. includeProduct s c = Some r) (userCart s userId) rows"
  by (rule rows_rel) (rule findMany_rows)

lemma rel_rowQty:
  "list_all2 (\<lambda>c r. includeProduct s c = Some r) cart rows \<Longrightarrow>
   rowQty rows pid = sum_list (map c_quantity (filter (\<lambda>c. c_productId c = pid) cart))"
  by (induction rule: list_all2_induct) (auto simp: rowQty_Cons includeProduct_Some, simp add: rowQty_def)

lemma findMany_rowQty:
  "cartItem_findMany s userId = Some rows \<Longrightarrow> rowQty rows pid = purchased s userId pid"
  unfolding purchased_def by (rule rel_rowQty) (rule findMany_rel)

lemma rel_valid:
  "list_all2 (\<lambda>c r. includeProduct s c = Some r) cart rows \<Longrightarrow>
   (\<forall>r\<in>set rows. rowValid r) = (\<forall>c\<in>set cart. \<not> lineInvalid s c)"
  by (induction rule: list_all2_induct) (auto simp: includeProduct_Some)

lemma rel_products:
  "list_all2 (\<lambda>c r. includeProduct s c = Some r) cart rows \<Longrightarrow>
   \<forall>r\<in>set rows. tbl_product s (ci_productId r) = Some (ci_product r)"
  by (induction rule: list_all2_induct) (auto simp: includeProduct_Some)

lemma validateCartItems_rowValid:
  "(validateCartItems rows = Inr ()) = (\<forall>r\<in>set rows. rowValid r)"
  by (simp add: validateCartItems_Inr rowValid_def)

lemma createOrder_success:
  assumes fm: "cartItem_findMany s userId = Some rows"
    and ne: "rows \<noteq> []"
    and ok: "validateCartItems rows = Inr ()"
  shows "createOrder num s userId addr =
     (Inr (map (newOrder num userId addr) (groupCartItemsByVendor rows)),
      cartItem_deleteMany
        ((adjustStock (\<lambda>pid. - purchased s userId pid) s)
           \<lparr>tbl_order := tbl_order s @ map (newOrder num userId addr) (groupCartItemsByVendor rows)\<rparr>)
        userId)"
proof -
  have prods: "\<forall>r\<in>set rows. tbl_product s (ci_productId r) = Some (ci_product r)"
    using findMany_rel[OF fm] by (rule rel_products)
  have "\<forall>g\<in>set (groupCartItemsByVendor rows). \<forall>i\<in>set (snd g). ci_productId i \<in> dom (tbl_product s)"
  proof (intro ballI)
    fix g i
    assume g: "g \<in> set (groupCartItemsByVendor rows)" and i: "i \<in> set (snd g)"
    from g have "snd g = filter (\<lambda>i. vid i = fst g) rows" by (rule group_entry(1))
    with i have "i \<in> set rows" by simp
    with prods show "ci_productId i \<in> dom (tbl_product s)" by auto
  qed
  then have "createOrder_loop num userId addr s [] (groupCartItemsByVendor rows) =
     (Inr ([] @ map (newOrder num userId addr) (groupCartItemsByVendor rows)),
      (adjustStock (\<lambda>pid. - groupsQty (groupCartItemsByVendor rows) pid) s)
        \<lparr>tbl_order := tbl_order s @ map (newOrder num userId addr) (groupCartItemsByVendor rows)\<rparr>)"
    by (rule createOrder_loop_ok)
  then show ?thesis
    using fm ne ok
    by (simp add: createOrder_def createOrder_tx_def transaction_def groupsQty_group
          findMany_rowQty[OF fm])
qed

lemma createOrder_Inr:
  assumes "createOrder num s userId addr = (Inr created, s')"
  shows "\<exists>rows. cartItem_findMany s userId = Some rows \<and> rows \<noteq> [] \<and> validateCartItems rows = Inr ()"
  using assms
  by (auto simp: createOrder_def createOrder_tx_def transaction_def
        split: option.splits if_splits sum.splits prod.splits)

lemma transaction_Inl: "transaction body s = (Inl e, s') \<Longrightarrow> s' = s"
  by (auto simp: transaction_def split: prod.splits sum.splits)

lemma createOrder_Inl: "createOrder num s userId addr = (Inl e, s') \<Longrightarrow> s' = s"
  unfolding createOrder_def by (rule transaction_Inl)

lemma sum_absent_line:
  "pid \<notin> c_productId ` set cart \<Longrightarrow>
   sum_list (map c_quantity (filter (\<lambda>x. c_productId x = pid) cart)) = 0"
  by (induction cart) auto

lemma sum_distinct_line:
  "distinct (map c_productId cart) \<Longrightarrow> c \<in> set cart \<Longrightarrow>
   sum_list (map c_quantity (filter (\<lambda>x. c_productId x = c_productId c) cart)) = c_quantity c"
proof (induction cart)
  case Nil
  then show ?case by simp
next
  case (Cons a cart)
  show ?case
  proof (cases "c = a")
    case True
    with Cons.prems show ?thesis by (simp add: sum_absent_line)
  next
    case False
    with Cons.prems have c: "c \<in> set cart" by simp
    with Cons.prems have "c_productId a \<noteq> c_productId c" by auto
    with Cons c show ?thesis by simp
  qed
qed

lemma rel_cart_products:
  "list_all2 (\<lambda>c r. includeProduct s c = Some r) cart rows \<Longrightarrow>
   \<forall>c\<in>set cart. c_productId c \<in> dom (tbl_product s)"
  by (induction rule: list_all2_induct) (auto simp: includeProduct_Some)

lemma rel_items:
  "list_all2 (\<lambda>c r. includeProduct s c = Some r) cart rows \<Longrightarrow>
   map toOrderItem (filter (\<lambda>r. vid r = v) rows) =
   map (lineItem s) (filter (\<lambda>c. lineVendor s c = v) cart)"
  by (induction rule: list_all2_induct)
     (auto simp: includeProduct_Some toOrderItem_def lineItem_def lineVendor_def vid_def)

lemma rel_vendors:
  "list_all2 (\<lambda>c r. includeProduct s c = Some r) cart rows \<Longrightarrow>
   vid ` set rows = lineVendor s ` set cart"
  by (induction rule: list_all2_induct)
     (auto simp: includeProduct_Some lineVendor_def vid_def)

lemma newOrder_fields:
  "o_userId (newOrder num userId addr g) = userId"
  "o_vendorId (newOrder num userId addr g) = fst g"
  "o_shippingAddress (newOrder num userId addr g) = addr"
  "o_status (newOrder num userId addr g) = PENDING"
  "o_items (newOrder num userId addr g) = map toOrderItem (snd g)"
  "o_total (newOrder num userId addr g) =
     foldl (\<lambda>sum it. sum + oi_price it * num (oi_quantity it)) 0 (map toOrderItem (snd g))"
  by (simp_all add: newOrder_def toOrderItem_def orderTotal_def foldl_map)

section \<open>Lemmas on cancellation and on sequences of calls\<close>

lemma statusValue_not_PENDING: "statusValue status \<noteq> PENDING"
  by (cases status) simp_all

lemma restoreStock_fail:
  "\<exists>i\<in>set items. oi_productId i \<notin> dom (tbl_product tx) \<Longrightarrow>
   \<exists>tx'. restoreStock tx items = (Inl PrismaClientError, tx')"
proof (induction items arbitrary: tx)
  case Nil
  then show ?case by simp
next
  case (Cons item rest)
  show ?case
  proof (cases "tbl_product tx (oi_productId item)")
    case None
    then show ?thesis by (simp add: product_update_def)
  next
    case (Some p)
    let ?tx1 = "tx\<lparr>tbl_product := (tbl_product tx)(oi_productId item \<mapsto> p\<lparr>p_stock := p_stock p + oi_quantity item\<rparr>)\<rparr>"
    have "dom (tbl_product ?tx1) = dom (tbl_product tx)"
      using Some by auto
    with Some Cons.prems have "\<exists>i\<in>set rest. oi_productId i \<notin> dom (tbl_product ?tx1)"
      by auto
    then have "\<exists>tx'. restoreStock ?tx1 rest = (Inl PrismaClientError, tx')"
      by (rule Cons.IH)
    with Some show ?thesis by (simp add: product_update_def)
  qed
qed

lemma cancel_tx_ok:
  assumes "order_findUnique s orderId = Some ord"
    and "\<forall>it\<in>set (o_items ord). oi_productId it \<in> dom (tbl_product s)"
  shows "transaction (cancel_tx ord orderId st) s =
     (Inr (ord\<lparr>o_status := st\<rparr>),
      (adjustStock (restoreQty (o_items ord)) s)
        \<lparr>tbl_order := (tbl_order s)[orderId := ord\<lparr>o_status := st\<rparr>]\<rparr>)"
proof -
  have "restoreStock s (o_items ord) = (Inr (), adjustStock (restoreQty (o_items ord)) s)"
    using assms(2) by (rule restoreStock_ok)
  moreover have "order_findUnique (adjustStock (restoreQty (o_items ord)) s) orderId = Some ord"
    using assms(1) by (simp add: order_findUnique_def split: if_splits)
  ultimately show ?thesis
    by (simp add: transaction_def cancel_tx_def order_update_status_def)
qed

lemma cancel_tx_fail:
  assumes "\<exists>it\<in>set (o_items ord). oi_productId it \<notin> dom (tbl_product s)"
  shows "transaction (cancel_tx ord orderId st) s = (Inl PrismaClientError, s)"
proof -
  from assms obtain tx' where "restoreStock s (o_items ord) = (Inl PrismaClientError, tx')"
    using restoreStock_fail by blast
  then show ?thesis by (simp add: transaction_def cancel_tx_def)
qed

lemma order_update_status_Inl: "order_update_status s orderId st = (Inl e, s') \<Longrightarrow> s' = s"
  by (auto simp: order_update_status_def split: option.splits)

lemma order_update_status_ok:
  "order_findUnique s orderId = Some ord \<Longrightarrow>
   order_update_status s orderId st =
     (Inr (ord\<lparr>o_status := st\<rparr>), s\<lparr>tbl_order := (tbl_order s)[orderId := ord\<lparr>o_status := st\<rparr>]\<rparr>)"
  by (simp add: order_update_status_def)

lemma updateOrderStatus_Inl:
  "updateOrderStatus s userId orderId status = (Inl e, s') \<Longrightarrow> s' = s"
  by (auto simp: updateOrderStatus_def split: sum.splits option.splits if_splits
        dest: transaction_Inl order_update_status_Inl)

lemma cancelOrder_Inl:
  "cancelOrder s userId orderId reason = (Inl e, s') \<Longrightarrow> s' = s"
  by (auto simp: cancelOrder_def split: option.splits if_splits dest: transaction_Inl)

lemma order_step_refl: "order_step ord ord"
  by (simp add: order_step_def)

lemma order_step_trans: "order_step a b \<Longrightarrow> order_step b c \<Longrightarrow> order_step a c"
  by (auto simp: order_step_def)

lemma order_step_status: "st \<noteq> PENDING \<Longrightarrow> o_status ord \<noteq> DELIVERED \<Longrightarrow> o_status ord \<noteq> CANCELLED \<Longrightarrow>
   order_step ord (ord\<lparr>o_status := st\<rparr>)"
  by (auto simp: order_step_def)

lemma order_step_fields:
  "order_step ord ord' \<Longrightarrow>
   o_items ord' = o_items ord \<and> o_total ord' = o_total ord \<and> o_userId ord' = o_userId ord \<and>
   o_vendorId ord' = o_vendorId ord \<and> o_shippingAddress ord' = o_shippingAddress ord"
  by (auto simp: order_step_def)

lemma order_step_not_PENDING:
  "order_step ord ord' \<Longrightarrow> o_status ord \<noteq> PENDING \<Longrightarrow> o_status ord' \<noteq> PENDING"
  by (auto simp: order_step_def)

lemma order_step_terminal:
  "order_step ord ord' \<Longrightarrow> o_status ord = DELIVERED \<or> o_status ord = CANCELLED \<Longrightarrow> ord' = ord"
  by (auto simp: order_step_def)

lemma orders_step_refl: "orders_step os os"
  by (simp add: orders_step_def order_step_refl)

lemma orders_step_trans: "orders_step a b \<Longrightarrow> orders_step b c \<Longrightarrow> orders_step a c"
  unfolding orders_step_def
  by (meson le_trans less_le_trans order_step_trans)

lemma orders_step_append: "orders_step os (os @ ext)"
  by (simp add: orders_step_def nth_append order_step_refl)

lemma orders_step_update:
  "order_findUnique s orderId = Some ord \<Longrightarrow> st \<noteq> PENDING \<Longrightarrow>
   o_status ord \<noteq> DELIVERED \<Longrightarrow> o_status ord \<noteq> CANCELLED \<Longrightarrow>
   orders_step (tbl_order s) ((tbl_order s)[orderId := ord\<lparr>o_status := st\<rparr>])"
  by (auto simp: orders_step_def order_findUnique_def nth_list_update order_step_refl
        order_step_status split: if_splits)

lemma createOrder_orders:
  "orders_step (tbl_order s) (tbl_order (snd (createOrder num s userId addr)))"
proof (cases "createOrder num s userId addr")
  case (Pair r s')
  show ?thesis
  proof (cases r)
    case (Inl e)
    with Pair have "s' = s" by (auto dest: createOrder_Inl)
    with Pair show ?thesis by (simp add: orders_step_refl)
  next
    case (Inr created)
    with Pair have ok: "createOrder num s userId addr = (Inr created, s')" by simp
    from createOrder_Inr[OF ok] obtain rows where
      "cartItem_findMany s userId = Some rows" "rows \<noteq> []" "validateCartItems rows = Inr ()"
      by blast
    from createOrder_success[OF this, of num addr] show ?thesis
      by (simp add: cartItem_deleteMany_def orders_step_append)
  qed
qed

lemma cancel_tx_orders:
  assumes "order_findUnique s orderId = Some ord" and "st \<noteq> PENDING"
    and "o_status ord \<noteq> DELIVERED" and "o_status ord \<noteq> CANCELLED"
  shows "orders_step (tbl_order s) (tbl_order (snd (transaction (cancel_tx ord orderId st) s)))"
proof (cases "\<forall>it\<in>set (o_items ord). oi_productId it \<in> dom (tbl_product s)")
  case True
  show ?thesis
    by (simp add: cancel_tx_ok[OF assms(1) True] orders_step_update[OF assms])
next
  case False
  then have "\<exists>it\<in>set (o_items ord). oi_productId it \<notin> dom (tbl_product s)" by simp
  then show ?thesis by (simp add: cancel_tx_fail orders_step_refl)
qed

lemma updateOrderStatus_orders:
  "orders_step (tbl_order s) (tbl_order (snd (updateOrderStatus s userId orderId status)))"
proof -
  have a: "orders_step (tbl_order s)
       (tbl_order (snd (transaction (cancel_tx ord orderId CANCELLED) s)))"
    if "order_findUnique s orderId = Some ord" "o_status ord \<noteq> DELIVERED"
       "o_status ord \<noteq> CANCELLED" for ord
    using that by (intro cancel_tx_orders) simp_all
  have b: "orders_step (tbl_order s)
       (tbl_order (snd (order_update_status s orderId (statusValue status))))"
    if "order_findUnique s orderId = Some ord" "o_status ord \<noteq> DELIVERED"
       "o_status ord \<noteq> CANCELLED" for ord
    using that
    by (simp add: order_update_status_ok orders_step_update statusValue_not_PENDING)
  show ?thesis
    unfolding updateOrderStatus_def
    by (auto simp: orders_step_refl a b split: sum.splits option.splits)
qed

lemma cancelOrder_orders:
  "orders_step (tbl_order s) (tbl_order (snd (cancelOrder s userId orderId reason)))"
proof -
  have a: "orders_step (tbl_order s)
       (tbl_order (snd (transaction (cancel_tx ord orderId CANCELLED) s)))"
    if "order_findUnique s orderId = Some ord" "o_status ord = PENDING \<or> o_status ord = CONFIRMED" for ord
    using that by (intro cancel_tx_orders) auto
  show ?thesis
    unfolding cancelOrder_def
    by (auto simp: orders_step_refl a split: option.splits)
qed

lemma updateProduct_orders: "tbl_order (snd (updateProduct s userId input)) = tbl_order s"
  by (auto simp: updateProduct_def product_update_def split: sum.splits option.splits)

lemma deleteProduct_orders: "tbl_order (snd (deleteProduct s userId productId)) = tbl_order s"
  by (auto simp: deleteProduct_def product_update_def split: sum.splits option.splits)

lemma createProduct_orders: "tbl_order (snd (createProduct s userId newId input)) = tbl_order s"
  by (auto simp: createProduct_def Let_def split: sum.splits option.splits)

lemma exec_orders: "orders_step (tbl_order s) (tbl_order (exec num s c))"
  by (cases c)
     (simp_all add: createOrder_orders updateOrderStatus_orders cancelOrder_orders
        updateProduct_orders deleteProduct_orders createProduct_orders orders_step_refl)

lemma run_orders: "orders_step (tbl_order s) (tbl_order (run num s calls))"
  unfolding run_def
proof (induction calls arbitrary: s)
  case Nil
  then show ?case by (simp add: orders_step_refl)
next
  case (Cons c calls)
  have "orders_step (tbl_order s) (tbl_order (exec num s c))" by (rule exec_orders)
  moreover have "orders_step (tbl_order (exec num s c)) (tbl_order (foldl (exec num) (exec num s c) calls))"
    by (rule Cons.IH)
  ultimately show ?case by (auto intro: orders_step_trans)
qed

lemma run_order:
  assumes "i < length (tbl_order s)"
  shows "i < length (tbl_order (run num s calls))"
    and "order_step (tbl_order s ! i) (tbl_order (run num s calls) ! i)"
  using run_orders[of s num calls] assms by (auto simp: orders_step_def)

lemma restoreQty_toOrderItem: "restoreQty (map toOrderItem rs) pid = rowQty rs pid"
  by (induction rs) (auto simp: restoreQty_def rowQty_def toOrderItem_def)

lemma rowQty_vendor_filter:
  assumes prods: "\<forall>r\<in>set rows. tbl_product s (ci_productId r) = Some (ci_product r)"
    and r0: "r0 \<in> set rows" "vid r0 = v"
  shows "rowQty (filter (\<lambda>r. vid r = v) rows) (ci_productId r0) = rowQty rows (ci_productId r0)"
proof -
  have "filter (\<lambda>i. ci_productId i = ci_productId r0) (filter (\<lambda>r. vid r = v) rows) =
        filter (\<lambda>i. ci_productId i = ci_productId r0) rows"
  proof (simp, rule filter_cong[OF refl])
    fix r assume r: "r \<in> set rows"
    show "(vid r = v \<and> ci_productId r = ci_productId r0) = (ci_productId r = ci_productId r0)"
    proof (cases "ci_productId r = ci_productId r0")
      case True
      with prods r r0(1) have "ci_product r = ci_product r0" by (metis option.inject)
      with r0(2) True show ?thesis by (simp add: vid_def)
    next
      case False
      then show ?thesis by simp
    qed
  qed
  then show ?thesis by (simp add: rowQty_def)
qed

lemma stock_back:
  "map_option (\<lambda>p. p\<lparr>p_stock := p_stock p + q\<rparr>)
     (map_option (\<lambda>p. p\<lparr>p_stock := p_stock p - q\<rparr>) x) = x"
  by (cases x) simp_all

lemma createOrder_then:
  assumes ok: "createOrder num s userId addr = (Inr created, s1)"
    and k: "k < length created"
  shows "order_findUnique s1 (length (tbl_order s) + k) = Some (created ! k)"
    and "o_status (created ! k) = PENDING"
    and "o_userId (created ! k) = userId"
    and "\<forall>it\<in>set (o_items (created ! k)). oi_productId it \<in> dom (tbl_product s1)"
    and "tbl_vendor s1 = tbl_vendor s"
    and "\<forall>it\<in>set (o_items (created ! k)).
           tbl_product (adjustStock (restoreQty (o_items (created ! k))) s1) (oi_productId it) =
           tbl_product s (oi_productId it)"
proof -
  from createOrder_Inr[OF ok] obtain rows where
    fm: "cartItem_findMany s userId = Some rows" and ne: "rows \<noteq> []"
    and val: "validateCartItems rows = Inr ()" by blast
  note rel = findMany_rel[OF fm]
  let ?gs = "groupCartItemsByVendor rows"
  from createOrder_success[OF fm ne val, of num addr] ok
  have created: "created = map (newOrder num userId addr) ?gs"
    and s1: "s1 = cartItem_deleteMany
        ((adjustStock (\<lambda>pid. - purchased s userId pid) s)
           \<lparr>tbl_order := tbl_order s @ created\<rparr>) userId"
    by simp_all
  have ord: "tbl_order s1 = tbl_order s @ created" and vend: "tbl_vendor s1 = tbl_vendor s"
    and prod: "tbl_product s1 pid =
       map_option (\<lambda>p. p\<lparr>p_stock := p_stock p + (- purchased s userId pid)\<rparr>) (tbl_product s pid)" for pid
    by (simp_all add: s1 cartItem_deleteMany_def tbl_product_adjustStock)
  from k have gk: "?gs ! k \<in> set ?gs" and kk: "k < length ?gs" by (simp_all add: created)
  have ck: "created ! k = newOrder num userId addr (?gs ! k)"
    using kk by (simp add: created)
  have rs: "snd (?gs ! k) = filter (\<lambda>i. vid i = fst (?gs ! k)) rows"
    using gk by (rule group_entry(1))
  have prods: "\<forall>r\<in>set rows. tbl_product s (ci_productId r) = Some (ci_product r)"
    using rel by (rule rel_products)
  show "order_findUnique s1 (length (tbl_order s) + k) = Some (created ! k)"
    using k by (simp add: order_findUnique_def ord nth_append)
  show "o_status (created ! k) = PENDING" "o_userId (created ! k) = userId"
    by (simp_all add: ck newOrder_fields)
  show "tbl_vendor s1 = tbl_vendor s" by (rule vend)
  have items: "o_items (created ! k) = map toOrderItem (snd (?gs ! k))"
    by (simp add: ck newOrder_fields)
  have dom1: "dom (tbl_product s1) = dom (tbl_product s)"
    by (auto simp: prod dom_def)
  show "\<forall>it\<in>set (o_items (created ! k)). oi_productId it \<in> dom (tbl_product s1)"
    using prods by (auto simp: items rs dom1 toOrderItem_def)
  show "\<forall>it\<in>set (o_items (created ! k)).
           tbl_product (adjustStock (restoreQty (o_items (created ! k))) s1) (oi_productId it) =
           tbl_product s (oi_productId it)"
  proof
    fix it assume "it \<in> set (o_items (created ! k))"
    then obtain r0 where r0: "r0 \<in> set rows" "vid r0 = fst (?gs ! k)"
      and it: "it = toOrderItem r0"
      by (auto simp: items rs)
    have pid: "oi_productId it = ci_productId r0" by (simp add: it toOrderItem_def)
    have "restoreQty (o_items (created ! k)) (oi_productId it) =
          rowQty (filter (\<lambda>i. vid i = fst (?gs ! k)) rows) (ci_productId r0)"
      by (simp add: items rs restoreQty_toOrderItem pid)
    also have "\<dots> = rowQty rows (ci_productId r0)"
      using prods r0 by (rule rowQty_vendor_filter)
    also have "\<dots> = purchased s userId (oi_productId it)"
      by (simp add: findMany_rowQty[OF fm] pid)
    finally show "tbl_product (adjustStock (restoreQty (o_items (created ! k))) s1) (oi_productId it) =
           tbl_product s (oi_productId it)"
      by (simp add: tbl_product_adjustStock prod stock_back)
  qed
qed

section \<open>The total in exact arithmetic, and the foreign key of order items\<close>

text \<open>
  Where the addition of the number type is associative with unit 0, the total that
  \<^verbatim>\<open>reduce\<close> accumulates is the sum of the list. The foreign key of the order item
  table is kept by every call: a product row is never deleted.
\<close>

lemma foldl_total:
  fixes f :: "'a \<Rightarrow> 'n::monoid_add"
  shows "foldl (\<lambda>sum x. sum + f x) a xs = a + sum_list (map f xs)"
  by (induction xs arbitrary: a) (simp_all add: add.assoc)

lemma total_exact:
  fixes items :: "('n::ring_1) orderItem list"
  shows "foldl (\<lambda>sum it. sum + oi_price it * of_int (oi_quantity it)) 0 items =
         (\<Sum>it\<leftarrow>items. oi_price it * of_int (oi_quantity it))"
  by (simp add: foldl_total)

lemma ordersRefer_update:
  assumes r: "ordersRefer s" and f: "order_findUnique s orderId = Some ord"
    and d: "dom (tbl_product s') = dom (tbl_product s)"
    and o: "tbl_order s' = (tbl_order s)[orderId := ord\<lparr>o_status := st\<rparr>]"
  shows "ordersRefer s'"
proof -
  from f have "ord \<in> set (tbl_order s)"
    by (auto simp: order_findUnique_def split: if_splits)
  with r have "\<forall>it\<in>set (o_items ord). oi_productId it \<in> dom (tbl_product s)"
    by (simp add: ordersRefer_def)
  moreover have "set (tbl_order s') \<subseteq> insert (ord\<lparr>o_status := st\<rparr>) (set (tbl_order s))"
    unfolding o by (rule set_update_subset_insert)
  ultimately show ?thesis
    unfolding ordersRefer_def d
  proof (intro ballI)
    fix ord' it
    assume a: "\<forall>it\<in>set (o_items ord). oi_productId it \<in> dom (tbl_product s)"
      and sub: "set (tbl_order s') \<subseteq> insert (ord\<lparr>o_status := st\<rparr>) (set (tbl_order s))"
      and o': "ord' \<in> set (tbl_order s')" and it: "it \<in> set (o_items ord')"
    from sub o' have "ord' = ord\<lparr>o_status := st\<rparr> \<or> ord' \<in> set (tbl_order s)" by blast
    then show "oi_productId it \<in> dom (tbl_product s)"
    proof
      assume "ord' = ord\<lparr>o_status := st\<rparr>"
      with it a show ?thesis by simp
    next
      assume "ord' \<in> set (tbl_order s)"
      with r it show ?thesis unfolding ordersRefer_def by blast
    qed
  qed
qed

lemma cancel_tx_refer:
  assumes r: "ordersRefer s" and f: "order_findUnique s orderId = Some ord"
  shows "ordersRefer (snd (transaction (cancel_tx ord orderId st) s))"
proof (cases "\<forall>it\<in>set (o_items ord). oi_productId it \<in> dom (tbl_product s)")
  case True
  show ?thesis
    by (rule ordersRefer_update[OF r f]) (simp_all add: cancel_tx_ok[OF f True])
next
  case False
  then have "\<exists>it\<in>set (o_items ord). oi_productId it \<notin> dom (tbl_product s)" by simp
  then show ?thesis using r by (simp add: cancel_tx_fail)
qed

lemma updateOrderStatus_refer:
  assumes r: "ordersRefer s"
  shows "ordersRefer (snd (updateOrderStatus s userId orderId status))"
proof -
  have b: "ordersRefer (snd (order_update_status s orderId st))"
    if f: "order_findUnique s orderId = Some ord" for ord st
    by (rule ordersRefer_update[OF r f]) (simp_all add: order_update_status_ok[OF f])
  show ?thesis
    unfolding updateOrderStatus_def
    using r by (auto simp: cancel_tx_refer b split: sum.splits option.splits)
qed

lemma cancelOrder_refer:
  assumes r: "ordersRefer s"
  shows "ordersRefer (snd (cancelOrder s userId orderId reason))"
  unfolding cancelOrder_def
  using r by (auto simp: cancel_tx_refer split: option.splits)

lemma createOrder_refer:
  assumes r: "ordersRefer s"
  shows "ordersRefer (snd (createOrder num s userId addr))"
proof (cases "createOrder num s userId addr")
  case (Pair res s')
  show ?thesis
  proof (cases res)
    case (Inl e)
    with Pair have "s' = s" by (auto dest: createOrder_Inl)
    with Pair r show ?thesis by simp
  next
    case (Inr created)
    with Pair have ok: "createOrder num s userId addr = (Inr created, s')" by simp
    from createOrder_Inr[OF ok] obtain rows where
      fm: "cartItem_findMany s userId = Some rows" and ne: "rows \<noteq> []"
      and val: "validateCartItems rows = Inr ()"
      by blast
    have prods: "\<forall>r\<in>set rows. tbl_product s (ci_productId r) = Some (ci_product r)"
      using findMany_rel[OF fm] by (rule rel_products)
    have new: "\<forall>it\<in>set (o_items (newOrder num userId addr g)). oi_productId it \<in> dom (tbl_product s)"
      if g: "g \<in> set (groupCartItemsByVendor rows)" for g
    proof -
      from g have "snd g = filter (\<lambda>i. vid i = fst g) rows" by (rule group_entry(1))
      then show ?thesis using prods by (auto simp: newOrder_fields toOrderItem_def)
    qed
    let ?s' = "snd (createOrder num s userId addr)"
    from createOrder_success[OF fm ne val, of num addr]
    have o: "tbl_order ?s' =
        tbl_order s @ map (newOrder num userId addr) (groupCartItemsByVendor rows)"
      and d: "dom (tbl_product ?s') = dom (tbl_product s)"
      by (simp_all add: cartItem_deleteMany_def)
    show ?thesis
      unfolding ordersRefer_def d o
    proof (intro ballI)
      fix ord it
      assume "ord \<in> set (tbl_order s @ map (newOrder num userId addr) (groupCartItemsByVendor rows))"
        and it: "it \<in> set (o_items ord)"
      then have "ord \<in> set (tbl_order s) \<or>
          (\<exists>g\<in>set (groupCartItemsByVendor rows). ord = newOrder num userId addr g)"
        by auto
      then show "oi_productId it \<in> dom (tbl_product s)"
      proof
        assume "ord \<in> set (tbl_order s)"
        with r it show ?thesis unfolding ordersRefer_def by blast
      next
        assume "\<exists>g\<in>set (groupCartItemsByVendor rows). ord = newOrder num userId addr g"
        with new it show ?thesis by blast
      qed
    qed
  qed
qed

lemma product_ops_refer:
  assumes r: "ordersRefer s"
  shows "ordersRefer (snd (updateProduct s userId input))"
    and "ordersRefer (snd (deleteProduct s userId productId))"
    and "ordersRefer (snd (createProduct s userId newId cinput))"
  using r
  by (auto simp: ordersRefer_def updateProduct_def deleteProduct_def createProduct_def
        product_update_def Let_def split: sum.splits option.splits)

lemma exec_refer: "ordersRefer s \<Longrightarrow> ordersRefer (exec num s c)"
  by (cases c)
     (simp_all add: createOrder_refer updateOrderStatus_refer cancelOrder_refer
        product_ops_refer, simp add: ordersRefer_def)

lemma run_refer: "ordersRefer s \<Longrightarrow> ordersRefer (run num s calls)"
  unfolding run_def by (induction calls arbitrary: s) (simp_all add: exec_refer)

text \<open>The definitions that evaluating a call at the example shop unfolds.\<close>

lemmas ex_eval =
  ex_shop_def ex_vendors_def ex_product_def ex_cart_def ex_address_def ex_orders_def
  ex_order1_def ex_order2_def
  userCart_def lineInvalid_def purchased_def lineVendor_def lineItem_def
  createOrder_def createOrder_tx_def transaction_def cartItem_findMany_def includeProduct_def
  vendor_findUnique_id_def vendor_findUnique_userId_def groupCartItemsByVendor_def
  Map_has_def Map_get_def product_update_def order_create_def newOrder_def orderTotal_def
  cartItem_deleteMany_def Let_def

lemmas ex_eval2 =
  ex_placed_def ex_order1_def ex_order2_def ex_vendors_def ex_product_def ex_address_def
  ex_newPrice_def
  updateOrderStatus_def cancelOrder_def getVendorProfile_def vendor_findUnique_userId_def
  order_findUnique_def order_update_status_def transaction_def cancel_tx_def product_update_def
  updateProduct_def product_getVendorProfile_def applyUpdateData_def category_findUnique_def
  run_def

section \<open>The properties\<close>

text \<open>
  C1. \<^verbatim>\<open>createOrder\<close> on an empty cart, or on a cart with a line whose product is inactive,
  whose product's vendor is not approved or whose quantity is greater than the product's
  stock, throws \<^verbatim>\<open>BAD_REQUEST\<close> and leaves the state as it was: no order or order item is
  created, no stock is changed, no cart item is deleted. The lines are all validated before
  anything is written: the body of the transaction itself throws in the state it started in.
  The rows of the cart are taken to refer to products and vendors that exist (the foreign
  keys of the schema).
\<close>

theorem createOrder_rejects_invalid_cart:
  assumes "cartItem_findMany s userId \<noteq> None"
    and "userCart s userId = [] \<or> (\<exists>c\<in>set (userCart s userId). lineInvalid s c)"
  shows "\<exists>m. createOrder_tx num userId addr s = (Inl (ORPCError BAD_REQUEST m), s) \<and>
             createOrder num s userId addr = (Inl (ORPCError BAD_REQUEST m), s)"
proof -
  from assms(1) obtain rows where fm: "cartItem_findMany s userId = Some rows" by auto
  note rel = findMany_rel[OF fm]
  show ?thesis
  proof (cases "rows = []")
    case True
    then show ?thesis using fm
      by (simp add: createOrder_def createOrder_tx_def transaction_def)
  next
    case False
    with rel have "userCart s userId \<noteq> []" by auto
    with assms(2) have "\<exists>c\<in>set (userCart s userId). lineInvalid s c" by simp
    then have "\<not> (\<forall>r\<in>set rows. rowValid r)" using rel_valid[OF rel] by simp
    then have "validateCartItems rows \<noteq> Inr ()" by (simp add: validateCartItems_rowValid)
    then obtain e where e: "validateCartItems rows = Inl e" by (cases "validateCartItems rows") auto
    then obtain m where "e = ORPCError BAD_REQUEST m" using validateCartItems_Inl by blast
    with e fm False show ?thesis
      by (simp add: createOrder_def createOrder_tx_def transaction_def)
  qed
qed

text \<open>
  C2. When \<^verbatim>\<open>createOrder\<close> succeeds, every product that a line of the cart refers to
  exists, and the stock of every product is its stock before the call minus the quantity
  the cart asked for (other products keep theirs). When the cart has one line per product
  (the unique key \<^verbatim>\<open>userId_productId\<close> of the cart item table), that quantity is the
  line's quantity, the stock of every product of the cart is not negative afterwards, and
  no stock that was not negative becomes negative.
\<close>

theorem createOrder_stock_conservation:
  assumes ok: "createOrder num s userId addr = (Inr created, s')"
  shows "(\<forall>c\<in>set (userCart s userId). c_productId c \<in> dom (tbl_product s)) \<and>
         (\<forall>pid. tbl_product s' pid =
                  map_option (\<lambda>p. p\<lparr>p_stock := p_stock p - purchased s userId pid\<rparr>)
                    (tbl_product s pid)) \<and>
         (distinct (map c_productId (userCart s userId)) \<longrightarrow>
            (\<forall>c\<in>set (userCart s userId).
                purchased s userId (c_productId c) = c_quantity c \<and>
                (\<exists>p'. tbl_product s' (c_productId c) = Some p' \<and> 0 \<le> p_stock p')) \<and>
            (\<forall>pid p p'. tbl_product s pid = Some p \<and> tbl_product s' pid = Some p' \<and>
                 0 \<le> p_stock p \<longrightarrow> 0 \<le> p_stock p'))"
proof -
  from createOrder_Inr[OF ok] obtain rows where
    fm: "cartItem_findMany s userId = Some rows" and ne: "rows \<noteq> []"
    and val: "validateCartItems rows = Inr ()" by blast
  note rel = findMany_rel[OF fm]
  have s': "s' = cartItem_deleteMany
        ((adjustStock (\<lambda>pid. - purchased s userId pid) s)
           \<lparr>tbl_order := tbl_order s @ map (newOrder num userId addr) (groupCartItemsByVendor rows)\<rparr>)
        userId"
    using createOrder_success[OF fm ne val, of num addr] ok by simp
  have prod: "tbl_product s' pid =
       map_option (\<lambda>p. p\<lparr>p_stock := p_stock p - purchased s userId pid\<rparr>) (tbl_product s pid)" for pid
    by (simp add: s' cartItem_deleteMany_def tbl_product_adjustStock)
  have valid: "\<forall>c\<in>set (userCart s userId). \<not> lineInvalid s c"
    using val rel_valid[OF rel] by (simp add: validateCartItems_rowValid)
  have ex: "\<forall>c\<in>set (userCart s userId). c_productId c \<in> dom (tbl_product s)"
    using rel by (rule rel_cart_products)
  have nonneg: "0 \<le> p_stock p'"
    if d: "distinct (map c_productId (userCart s userId))"
      and p: "tbl_product s pid = Some p" and p': "tbl_product s' pid = Some p'"
      and p0: "0 \<le> p_stock p" for pid p p'
  proof (cases "pid \<in> c_productId ` set (userCart s userId)")
    case True
    then obtain c where c: "c \<in> set (userCart s userId)" and pid: "pid = c_productId c" by auto
    have "purchased s userId pid = c_quantity c"
      unfolding purchased_def pid using d c by (rule sum_distinct_line)
    moreover have "c_quantity c \<le> p_stock p"
      using valid c p by (auto simp: lineInvalid_def pid)
    ultimately show ?thesis using p p' by (auto simp: prod)
  next
    case False
    then have "purchased s userId pid = 0"
      unfolding purchased_def by (rule sum_absent_line)
    then show ?thesis using p p' p0 by (auto simp: prod)
  qed
  have one: "purchased s userId (c_productId c) = c_quantity c"
    if "distinct (map c_productId (userCart s userId))" and "c \<in> set (userCart s userId)" for c
    unfolding purchased_def using that by (rule sum_distinct_line)
  show ?thesis
  proof (intro conjI impI allI)
    show "\<forall>c\<in>set (userCart s userId). c_productId c \<in> dom (tbl_product s)" by (rule ex)
    show "tbl_product s' pid =
       map_option (\<lambda>p. p\<lparr>p_stock := p_stock p - purchased s userId pid\<rparr>) (tbl_product s pid)" for pid
      by (rule prod)
    show "\<forall>c\<in>set (userCart s userId).
            purchased s userId (c_productId c) = c_quantity c \<and>
            (\<exists>p'. tbl_product s' (c_productId c) = Some p' \<and> 0 \<le> p_stock p')"
      if d: "distinct (map c_productId (userCart s userId))"
    proof
      fix c assume c: "c \<in> set (userCart s userId)"
      from ex c obtain p where p: "tbl_product s (c_productId c) = Some p" by auto
      have q: "purchased s userId (c_productId c) = c_quantity c" using d c by (rule one)
      have "c_quantity c \<le> p_stock p"
        using valid c p by (auto simp: lineInvalid_def)
      with p q show "purchased s userId (c_productId c) = c_quantity c \<and>
            (\<exists>p'. tbl_product s' (c_productId c) = Some p' \<and> 0 \<le> p_stock p')"
        by (simp add: prod)
    qed
    show "0 \<le> p_stock p'"
      if "distinct (map c_productId (userCart s userId))"
        and "tbl_product s pid = Some p \<and> tbl_product s' pid = Some p' \<and> 0 \<le> p_stock p"
      for pid p p'
      using that nonneg by blast
  qed
qed

text \<open>
  C3. When the cart is not empty and all its lines are valid, \<^verbatim>\<open>createOrder\<close> succeeds
  and appends the orders it returns to the order table: one order for each vendor that the
  product of a cart line has, no two for the same vendor. Each order has status
  \<^verbatim>\<open>PENDING\<close>; its items are the cart lines of its vendor, in the cart's order, with
  the line's product id and quantity and the price the product has when the handler is
  called; its total is the sum of price times quantity over its own items, added up from 0 in
  the items' order.
\<close>

theorem createOrder_vendor_partition:
  assumes ri: "cartItem_findMany s userId \<noteq> None"
    and ne: "userCart s userId \<noteq> []"
    and valid: "\<forall>c\<in>set (userCart s userId). \<not> lineInvalid s c"
  shows "\<exists>created s'.
      createOrder num s userId addr = (Inr created, s') \<and>
      tbl_order s' = tbl_order s @ created \<and>
      distinct (map o_vendorId created) \<and>
      set (map o_vendorId created) = lineVendor s ` set (userCart s userId) \<and>
      (\<forall>ord\<in>set created.
          o_userId ord = userId \<and> o_shippingAddress ord = addr \<and> o_status ord = PENDING \<and>
          o_items ord =
            map (lineItem s) (filter (\<lambda>c. lineVendor s c = o_vendorId ord) (userCart s userId)) \<and>
          o_total ord =
            foldl (\<lambda>sum it. sum + oi_price it * num (oi_quantity it)) 0 (o_items ord))"
proof -
  from ri obtain rows where fm: "cartItem_findMany s userId = Some rows" by auto
  note rel = findMany_rel[OF fm]
  from rel ne have rne: "rows \<noteq> []" by auto
  have val: "validateCartItems rows = Inr ()"
    using valid rel_valid[OF rel] by (simp add: validateCartItems_rowValid)
  let ?gs = "groupCartItemsByVendor rows"
  let ?created = "map (newOrder num userId addr) ?gs"
  note co = createOrder_success[OF fm rne val, of num addr]
  have vmap: "map o_vendorId ?created = map fst ?gs"
    by (simp add: newOrder_fields comp_def)
  have d: "distinct (map o_vendorId ?created)"
    unfolding vmap by (rule group_distinct)
  have v: "set (map o_vendorId ?created) = lineVendor s ` set (userCart s userId)"
    unfolding vmap using group_keys[of rows] rel_vendors[OF rel] by simp
  have each: "o_userId ord = userId \<and> o_shippingAddress ord = addr \<and> o_status ord = PENDING \<and>
          o_items ord =
            map (lineItem s) (filter (\<lambda>c. lineVendor s c = o_vendorId ord) (userCart s userId)) \<and>
          o_total ord =
            foldl (\<lambda>sum it. sum + oi_price it * num (oi_quantity it)) 0 (o_items ord)"
    if "ord \<in> set ?created" for ord
  proof -
    from that obtain g where g: "g \<in> set ?gs" and ord: "ord = newOrder num userId addr g"
      by auto
    have "snd g = filter (\<lambda>i. vid i = fst g) rows" using g by (rule group_entry(1))
    then have "map toOrderItem (snd g) =
        map (lineItem s) (filter (\<lambda>c. lineVendor s c = fst g) (userCart s userId))"
      using rel_items[OF rel] by simp
    then show ?thesis by (simp add: ord newOrder_fields)
  qed
  have "tbl_order (snd (createOrder num s userId addr)) = tbl_order s @ ?created"
    by (simp add: co cartItem_deleteMany_def)
  moreover have "createOrder num s userId addr =
      (Inr ?created, snd (createOrder num s userId addr))"
    by (simp add: co)
  ultimately show ?thesis using d v each by blast
qed

text \<open>
  C4. Cancelling an order whose items refer to existing products (the foreign key of the
  order item table), by \<^verbatim>\<open>updateOrderStatus\<close> with target \<^verbatim>\<open>CANCELLED\<close> called by the
  order's vendor on an order that is neither cancelled nor delivered, or by
  \<^verbatim>\<open>cancelOrder\<close> called by the order's customer on a pending or confirmed order: the call
  returns the order with status \<^verbatim>\<open>CANCELLED\<close>, and in the state it leaves the order row has
  that status and the stock of every product is its stock before plus the quantity of the
  order's items for that product, once; nothing else is changed. When an item's product
  does not exist the stock cannot be restored, and then neither call changes anything: the
  status update and the restoration stand or fall together. A checkout followed by the
  cancellation, by either procedure, of one of the orders it created gives every product of
  that order the row, and so the stock, it had before the checkout.
\<close>

theorem cancellation_restores_stock:
  "(order_findUnique s orderId = Some ord \<and>
    (\<forall>it\<in>set (o_items ord). oi_productId it \<in> dom (tbl_product s)) \<and>
    vendor_findUnique_userId s vendorUser = Some v \<and> o_vendorId ord = v_id v \<and>
    o_status ord \<noteq> CANCELLED \<and> o_status ord \<noteq> DELIVERED \<longrightarrow>
      updateOrderStatus s vendorUser orderId To_CANCELLED =
        (Inr (ord\<lparr>o_status := CANCELLED\<rparr>),
         (adjustStock (restoreQty (o_items ord)) s)
           \<lparr>tbl_order := (tbl_order s)[orderId := ord\<lparr>o_status := CANCELLED\<rparr>]\<rparr>)) \<and>
   (order_findUnique s orderId = Some ord \<and>
    (\<forall>it\<in>set (o_items ord). oi_productId it \<in> dom (tbl_product s)) \<and>
    o_userId ord = customer \<and> (o_status ord = PENDING \<or> o_status ord = CONFIRMED) \<longrightarrow>
      cancelOrder s customer orderId reason =
        (Inr (ord\<lparr>o_status := CANCELLED\<rparr>),
         (adjustStock (restoreQty (o_items ord)) s)
           \<lparr>tbl_order := (tbl_order s)[orderId := ord\<lparr>o_status := CANCELLED\<rparr>]\<rparr>)) \<and>
   (\<forall>pid. tbl_product (adjustStock (restoreQty (o_items ord)) s) pid =
      map_option (\<lambda>p. p\<lparr>p_stock := p_stock p + restoreQty (o_items ord) pid\<rparr>)
        (tbl_product s pid)) \<and>
   (order_findUnique s orderId = Some ord \<and>
    (\<exists>it\<in>set (o_items ord). oi_productId it \<notin> dom (tbl_product s)) \<longrightarrow>
      snd (updateOrderStatus s vendorUser orderId To_CANCELLED) = s \<and>
      snd (cancelOrder s customer orderId reason) = s) \<and>
   (createOrder num s0 customer addr = (Inr created, s1) \<and> k < length created \<and>
    (r = cancelOrder s1 customer (length (tbl_order s0) + k) reason \<or>
     r = updateOrderStatus s1 vendorUser (length (tbl_order s0) + k) To_CANCELLED \<and>
     vendor_findUnique_userId s0 vendorUser = Some v \<and> o_vendorId (created ! k) = v_id v) \<longrightarrow>
      fst r = Inr ((created ! k)\<lparr>o_status := CANCELLED\<rparr>) \<and>
      (\<forall>it\<in>set (o_items (created ! k)).
          tbl_product (snd r) (oi_productId it) = tbl_product s0 (oi_productId it)))"
proof (intro conjI impI allI)
  assume a: "order_findUnique s orderId = Some ord \<and>
    (\<forall>it\<in>set (o_items ord). oi_productId it \<in> dom (tbl_product s)) \<and>
    vendor_findUnique_userId s vendorUser = Some v \<and> o_vendorId ord = v_id v \<and>
    o_status ord \<noteq> CANCELLED \<and> o_status ord \<noteq> DELIVERED"
  then have f: "order_findUnique s orderId = Some ord"
    and ri: "\<forall>it\<in>set (o_items ord). oi_productId it \<in> dom (tbl_product s)" by blast+
  from a have "updateOrderStatus s vendorUser orderId To_CANCELLED =
      transaction (cancel_tx ord orderId CANCELLED) s"
    by (simp add: updateOrderStatus_def getVendorProfile_def)
  then show "updateOrderStatus s vendorUser orderId To_CANCELLED =
        (Inr (ord\<lparr>o_status := CANCELLED\<rparr>),
         (adjustStock (restoreQty (o_items ord)) s)
           \<lparr>tbl_order := (tbl_order s)[orderId := ord\<lparr>o_status := CANCELLED\<rparr>]\<rparr>)"
    by (simp add: cancel_tx_ok[OF f ri])
next
  assume a: "order_findUnique s orderId = Some ord \<and>
    (\<forall>it\<in>set (o_items ord). oi_productId it \<in> dom (tbl_product s)) \<and>
    o_userId ord = customer \<and> (o_status ord = PENDING \<or> o_status ord = CONFIRMED)"
  then have f: "order_findUnique s orderId = Some ord"
    and ri: "\<forall>it\<in>set (o_items ord). oi_productId it \<in> dom (tbl_product s)" by blast+
  from a have "cancelOrder s customer orderId reason =
      transaction (cancel_tx ord orderId CANCELLED) s"
    by (auto simp: cancelOrder_def)
  then show "cancelOrder s customer orderId reason =
        (Inr (ord\<lparr>o_status := CANCELLED\<rparr>),
         (adjustStock (restoreQty (o_items ord)) s)
           \<lparr>tbl_order := (tbl_order s)[orderId := ord\<lparr>o_status := CANCELLED\<rparr>]\<rparr>)"
    by (simp add: cancel_tx_ok[OF f ri])
next
  fix pid
  show "tbl_product (adjustStock (restoreQty (o_items ord)) s) pid =
      map_option (\<lambda>p. p\<lparr>p_stock := p_stock p + restoreQty (o_items ord) pid\<rparr>)
        (tbl_product s pid)"
    by (rule tbl_product_adjustStock)
next
  assume a: "order_findUnique s orderId = Some ord \<and>
    (\<exists>it\<in>set (o_items ord). oi_productId it \<notin> dom (tbl_product s))"
  then have m: "\<exists>it\<in>set (o_items ord). oi_productId it \<notin> dom (tbl_product s)" by blast
  have tx: "transaction (cancel_tx ord orderId CANCELLED) s = (Inl PrismaClientError, s)"
    using m by (rule cancel_tx_fail)
  show "snd (updateOrderStatus s vendorUser orderId To_CANCELLED) = s"
    using a by (auto simp: updateOrderStatus_def tx split: sum.splits)
  show "snd (cancelOrder s customer orderId reason) = s"
    using a by (auto simp: cancelOrder_def tx)
next
  assume a: "createOrder num s0 customer addr = (Inr created, s1) \<and> k < length created \<and>
    (r = cancelOrder s1 customer (length (tbl_order s0) + k) reason \<or>
     r = updateOrderStatus s1 vendorUser (length (tbl_order s0) + k) To_CANCELLED \<and>
     vendor_findUnique_userId s0 vendorUser = Some v \<and> o_vendorId (created ! k) = v_id v)"
  then have ok: "createOrder num s0 customer addr = (Inr created, s1)" and k: "k < length created"
    by blast+
  note t = createOrder_then[OF ok k]
  let ?oid = "length (tbl_order s0) + k"
  let ?ord = "created ! k"
  have tx: "transaction (cancel_tx ?ord ?oid CANCELLED) s1 =
     (Inr (?ord\<lparr>o_status := CANCELLED\<rparr>),
      (adjustStock (restoreQty (o_items ?ord)) s1)
        \<lparr>tbl_order := (tbl_order s1)[?oid := ?ord\<lparr>o_status := CANCELLED\<rparr>]\<rparr>)"
    by (rule cancel_tx_ok[OF t(1) t(4)])
  have "r = transaction (cancel_tx ?ord ?oid CANCELLED) s1"
    using a t(1,2,3)
    by (auto simp: cancelOrder_def updateOrderStatus_def getVendorProfile_def
          vendor_findUnique_userId_def t(5))
  with tx t(6)
  have "fst r = Inr ((created ! k)\<lparr>o_status := CANCELLED\<rparr>) \<and>
      (\<forall>it\<in>set (o_items (created ! k)).
          tbl_product (snd r) (oi_productId it) = tbl_product s0 (oi_productId it))"
    by simp
  then show "fst r = Inr ((created ! k)\<lparr>o_status := CANCELLED\<rparr>)"
    and "\<forall>it\<in>set (o_items (created ! k)).
          tbl_product (snd r) (oi_productId it) = tbl_product s0 (oi_productId it)"
    by blast+
qed

text \<open>
  C5 does not hold as it is stated: \<^verbatim>\<open>updateOrderStatus\<close> on a cancelled order, called
  by a user who is not a vendor, throws \<^verbatim>\<open>FORBIDDEN\<close> and not \<^verbatim>\<open>BAD_REQUEST\<close>: the
  handler resolves and checks the caller before it looks at the order's status.
\<close>

theorem terminal_order_counterexample:
  "o_status (tbl_order (ex_placed CANCELLED) ! 0) = CANCELLED \<and>
   updateOrderStatus (ex_placed CANCELLED) ''carol'' 0 To_SHIPPED =
     (Inl (ORPCError FORBIDDEN MustBeVendor), ex_placed CANCELLED)"
  by (simp add: ex_eval2)

text \<open>
  C5, amended. For an order whose status is \<^verbatim>\<open>DELIVERED\<close> or \<^verbatim>\<open>CANCELLED\<close>: every call
  of \<^verbatim>\<open>updateOrderStatus\<close>, whatever the target, throws and leaves the state as it was,
  with \<^verbatim>\<open>BAD_REQUEST\<close> when the caller is the vendor of the order and with
  \<^verbatim>\<open>FORBIDDEN\<close> otherwise; every call of \<^verbatim>\<open>cancelOrder\<close> throws and leaves the state as
  it was, with \<^verbatim>\<open>BAD_REQUEST\<close> when the caller is the order's customer and with
  \<^verbatim>\<open>FORBIDDEN\<close> otherwise; and after any sequence of calls the order row is what it was.
\<close>

theorem terminal_orders_stay:
  assumes "order_findUnique s orderId = Some ord"
    and "o_status ord = DELIVERED \<or> o_status ord = CANCELLED"
  shows "(\<exists>e. updateOrderStatus s userId orderId status = (Inl e, s) \<and>
            ((\<exists>v. vendor_findUnique_userId s userId = Some v \<and> v_id v = o_vendorId ord) \<longrightarrow>
               codeOf e = Some BAD_REQUEST) \<and>
            (\<not> (\<exists>v. vendor_findUnique_userId s userId = Some v \<and> v_id v = o_vendorId ord) \<longrightarrow>
               codeOf e = Some FORBIDDEN)) \<and>
         (\<exists>e. cancelOrder s userId orderId reason = (Inl e, s) \<and>
            (o_userId ord = userId \<longrightarrow> codeOf e = Some BAD_REQUEST) \<and>
            (o_userId ord \<noteq> userId \<longrightarrow> codeOf e = Some FORBIDDEN)) \<and>
         order_findUnique (run num s calls) orderId = Some ord"
proof (intro conjI)
  show "\<exists>e. updateOrderStatus s userId orderId status = (Inl e, s) \<and>
            ((\<exists>v. vendor_findUnique_userId s userId = Some v \<and> v_id v = o_vendorId ord) \<longrightarrow>
               codeOf e = Some BAD_REQUEST) \<and>
            (\<not> (\<exists>v. vendor_findUnique_userId s userId = Some v \<and> v_id v = o_vendorId ord) \<longrightarrow>
               codeOf e = Some FORBIDDEN)"
    using assms
    by (cases "vendor_findUnique_userId s userId")
       (auto simp: updateOrderStatus_def getVendorProfile_def)
  show "\<exists>e. cancelOrder s userId orderId reason = (Inl e, s) \<and>
            (o_userId ord = userId \<longrightarrow> codeOf e = Some BAD_REQUEST) \<and>
            (o_userId ord \<noteq> userId \<longrightarrow> codeOf e = Some FORBIDDEN)"
    using assms by (auto simp: cancelOrder_def)
  from assms(1) have lt: "orderId < length (tbl_order s)" and o: "tbl_order s ! orderId = ord"
    by (auto simp: order_findUnique_def split: if_splits)
  from run_order[OF lt, of num calls] assms(2) o
  show "order_findUnique (run num s calls) orderId = Some ord"
    by (auto simp: order_findUnique_def dest: order_step_terminal)
qed

text \<open>
  C6 does not hold as it is stated: the vendor of a shipped order moves it back to
  \<^verbatim>\<open>CONFIRMED\<close>. The handler checks only that the order is not cancelled and not
  delivered.
\<close>

theorem shipped_order_counterexample:
  "o_status (tbl_order (ex_placed SHIPPED) ! 0) = SHIPPED \<and>
   updateOrderStatus (ex_placed SHIPPED) ''alice'' 0 To_CONFIRMED =
     (Inr (ex_order1 CONFIRMED), ex_placed CONFIRMED)"
  by (simp add: ex_eval2)

text \<open>
  C6, amended. For an order in status \<^verbatim>\<open>SHIPPED\<close>, \<^verbatim>\<open>updateOrderStatus\<close> called
  by the vendor of the order succeeds for each of the four targets of its input,
  \<^verbatim>\<open>CONFIRMED\<close>, \<^verbatim>\<open>SHIPPED\<close>, \<^verbatim>\<open>DELIVERED\<close> and \<^verbatim>\<open>CANCELLED\<close> (for this last
  one, the order's items referring to existing products), and gives the order that status.
\<close>

theorem shipped_order_transitions:
  assumes "order_findUnique s orderId = Some ord" and "o_status ord = SHIPPED"
    and "vendor_findUnique_userId s userId = Some v" and "o_vendorId ord = v_id v"
    and "status = To_CANCELLED \<longrightarrow>
         (\<forall>it\<in>set (o_items ord). oi_productId it \<in> dom (tbl_product s))"
  shows "\<exists>s'. updateOrderStatus s userId orderId status =
                 (Inr (ord\<lparr>o_status := statusValue status\<rparr>), s') \<and>
              order_findUnique s' orderId = Some (ord\<lparr>o_status := statusValue status\<rparr>)"
proof -
  from assms(1) have lt: "orderId < length (tbl_order s)"
    by (simp add: order_findUnique_def split: if_splits)
  show ?thesis
  proof (cases "status = To_CANCELLED")
    case True
    with assms have "updateOrderStatus s userId orderId status =
        transaction (cancel_tx ord orderId CANCELLED) s"
      by (simp add: updateOrderStatus_def getVendorProfile_def)
    moreover from True assms(5)
    have ri: "\<forall>it\<in>set (o_items ord). oi_productId it \<in> dom (tbl_product s)" by simp
    ultimately show ?thesis using True lt
      by (simp add: cancel_tx_ok[OF assms(1) ri] order_findUnique_def)
  next
    case False
    with assms have "updateOrderStatus s userId orderId status =
        order_update_status s orderId (statusValue status)"
      by (simp add: updateOrderStatus_def getVendorProfile_def)
    with lt show ?thesis
      by (simp add: order_update_status_ok[OF assms(1)] order_findUnique_def)
  qed
qed

text \<open>
  C7. \<^verbatim>\<open>updateOrderStatus\<close> called by a user with no vendor profile throws
  \<^verbatim>\<open>FORBIDDEN\<close>; called by a vendor with the id of no order, it throws \<^verbatim>\<open>NOT_FOUND\<close>;
  called by a vendor whose id is not the order's \<^verbatim>\<open>vendorId\<close>, it throws \<^verbatim>\<open>FORBIDDEN\<close>.
  In each case the state, and so the order and every stock, is as it was.
\<close>

theorem updateOrderStatus_authorization:
  "(vendor_findUnique_userId s userId = None \<longrightarrow>
      updateOrderStatus s userId orderId status = (Inl (ORPCError FORBIDDEN MustBeVendor), s)) \<and>
   (vendor_findUnique_userId s userId = Some v \<and> order_findUnique s orderId = None \<longrightarrow>
      updateOrderStatus s userId orderId status = (Inl (ORPCError NOT_FOUND OrderNotFound), s)) \<and>
   (vendor_findUnique_userId s userId = Some v \<and> order_findUnique s orderId = Some ord \<and>
    o_vendorId ord \<noteq> v_id v \<longrightarrow>
      updateOrderStatus s userId orderId status =
        (Inl (ORPCError FORBIDDEN OnlyUpdateOwnOrders), s))"
  by (simp add: updateOrderStatus_def getVendorProfile_def)

text \<open>
  C8. \<^verbatim>\<open>cancelOrder\<close> throws \<^verbatim>\<open>NOT_FOUND\<close> when no order has the id; else
  \<^verbatim>\<open>FORBIDDEN\<close> when the caller is not the order's customer; else \<^verbatim>\<open>BAD_REQUEST\<close> when
  the status is neither \<^verbatim>\<open>PENDING\<close> nor \<^verbatim>\<open>CONFIRMED\<close>; otherwise, the order's items
  referring to existing products, it returns the order with status \<^verbatim>\<open>CANCELLED\<close> and the
  order row has that status afterwards. Whenever it throws, the state is as it was.
\<close>

theorem cancelOrder_outcomes:
  "(order_findUnique s orderId = None \<longrightarrow>
      cancelOrder s userId orderId reason = (Inl (ORPCError NOT_FOUND OrderNotFound), s)) \<and>
   (order_findUnique s orderId = Some ord \<and> o_userId ord \<noteq> userId \<longrightarrow>
      cancelOrder s userId orderId reason = (Inl (ORPCError FORBIDDEN OnlyCancelOwnOrders), s)) \<and>
   (order_findUnique s orderId = Some ord \<and> o_userId ord = userId \<and>
    o_status ord \<noteq> PENDING \<and> o_status ord \<noteq> CONFIRMED \<longrightarrow>
      cancelOrder s userId orderId reason =
        (Inl (ORPCError BAD_REQUEST (CannotCancelWithStatus (o_status ord))), s)) \<and>
   (order_findUnique s orderId = Some ord \<and> o_userId ord = userId \<and>
    (o_status ord = PENDING \<or> o_status ord = CONFIRMED) \<and>
    (\<forall>it\<in>set (o_items ord). oi_productId it \<in> dom (tbl_product s)) \<longrightarrow>
      (\<exists>s'. cancelOrder s userId orderId reason = (Inr (ord\<lparr>o_status := CANCELLED\<rparr>), s') \<and>
            order_findUnique s' orderId = Some (ord\<lparr>o_status := CANCELLED\<rparr>))) \<and>
   (\<forall>e s'. cancelOrder s userId orderId reason = (Inl e, s') \<longrightarrow> s' = s)"
proof (intro conjI impI allI)
  assume "order_findUnique s orderId = Some ord \<and> o_userId ord = userId \<and>
    (o_status ord = PENDING \<or> o_status ord = CONFIRMED) \<and>
    (\<forall>it\<in>set (o_items ord). oi_productId it \<in> dom (tbl_product s))"
  then have f: "order_findUnique s orderId = Some ord" and u: "o_userId ord = userId"
    and st: "o_status ord = PENDING \<or> o_status ord = CONFIRMED"
    and ri: "\<forall>it\<in>set (o_items ord). oi_productId it \<in> dom (tbl_product s)"
    by blast+
  from f have lt: "orderId < length (tbl_order s)"
    by (simp add: order_findUnique_def split: if_splits)
  have "cancelOrder s userId orderId reason = transaction (cancel_tx ord orderId CANCELLED) s"
    using f u st by (auto simp: cancelOrder_def)
  then show "\<exists>s'. cancelOrder s userId orderId reason = (Inr (ord\<lparr>o_status := CANCELLED\<rparr>), s') \<and>
            order_findUnique s' orderId = Some (ord\<lparr>o_status := CANCELLED\<rparr>)"
    using lt by (simp add: cancel_tx_ok[OF f ri] order_findUnique_def)
next
  fix e s'
  assume "cancelOrder s userId orderId reason = (Inl e, s')"
  then show "s' = s" by (rule cancelOrder_Inl)
qed (simp_all add: cancelOrder_def)

text \<open>
  C9. \<^verbatim>\<open>updateProduct\<close> leaves the order table as it is, and after any sequence of calls
  every order that existed before has the items, with their prices, and the total it had.
\<close>

theorem order_prices_immutable:
  "tbl_order (snd (updateProduct s userId input)) = tbl_order s \<and>
   (\<forall>i<length (tbl_order s).
      i < length (tbl_order (run num s calls)) \<and>
      o_items (tbl_order (run num s calls) ! i) = o_items (tbl_order s ! i) \<and>
      o_total (tbl_order (run num s calls) ! i) = o_total (tbl_order s ! i))"
  using run_order[of _ s num calls]
  by (auto simp: updateProduct_orders dest: order_step_fields)

text \<open>
  C10. No target of \<^verbatim>\<open>updateOrderStatus\<close> is \<^verbatim>\<open>PENDING\<close>; an order that
  \<^verbatim>\<open>updateOrderStatus\<close> returns has the target as its status and one that
  \<^verbatim>\<open>cancelOrder\<close> returns is cancelled; and an order whose status is not \<^verbatim>\<open>PENDING\<close>
  has, after any sequence of calls, a status that is not \<^verbatim>\<open>PENDING\<close>.
\<close>

theorem status_never_back_to_PENDING:
  "statusValue status \<noteq> PENDING \<and>
   (\<forall>ord s'. updateOrderStatus s userId orderId status = (Inr ord, s') \<longrightarrow>
      o_status ord = statusValue status) \<and>
   (\<forall>ord s'. cancelOrder s userId orderId reason = (Inr ord, s') \<longrightarrow> o_status ord = CANCELLED) \<and>
   (\<forall>i<length (tbl_order s). o_status (tbl_order s ! i) \<noteq> PENDING \<longrightarrow>
      i < length (tbl_order (run num s calls)) \<and>
      o_status (tbl_order (run num s calls) ! i) \<noteq> PENDING)"
proof (intro conjI allI impI)
  show "statusValue status \<noteq> PENDING" by (rule statusValue_not_PENDING)
next
  fix ord s'
  assume "updateOrderStatus s userId orderId status = (Inr ord, s')"
  then show "o_status ord = statusValue status"
    by (auto simp: updateOrderStatus_def transaction_def cancel_tx_def order_update_status_def
          split: sum.splits option.splits if_splits prod.splits)
next
  fix ord s'
  assume "cancelOrder s userId orderId reason = (Inr ord, s')"
  then show "o_status ord = CANCELLED"
    by (auto simp: cancelOrder_def transaction_def cancel_tx_def order_update_status_def
          split: sum.splits option.splits if_splits prod.splits)
next
  fix i
  assume i: "i < length (tbl_order s)" and np: "o_status (tbl_order s ! i) \<noteq> PENDING"
  from run_order[OF i, of num calls] np
  show "i < length (tbl_order (run num s calls))"
    and "o_status (tbl_order (run num s calls) ! i) \<noteq> PENDING"
    by (auto dest: order_step_not_PENDING)
qed

section \<open>The properties at the example shop\<close>

theorem createOrder_rejects_invalid_cart_witness:
  "cartItem_findMany (ex_shop 5 0) ''carol'' \<noteq> None \<and>
   (\<exists>c\<in>set (userCart (ex_shop 5 0) ''carol''). lineInvalid (ex_shop 5 0) c) \<and>
   (\<exists>m. createOrder id (ex_shop 5 0) ''carol'' ex_address =
          (Inl (ORPCError BAD_REQUEST m), ex_shop 5 0))"
proof -
  have h1: "cartItem_findMany (ex_shop 5 0) ''carol'' \<noteq> None"
    by (simp add: ex_eval)
  have h2: "\<exists>c\<in>set (userCart (ex_shop 5 0) ''carol''). lineInvalid (ex_shop 5 0) c"
    by (simp add: ex_eval)
  from h2 have h3: "userCart (ex_shop 5 0) ''carol'' = [] \<or>
      (\<exists>c\<in>set (userCart (ex_shop 5 0) ''carol''). lineInvalid (ex_shop 5 0) c)" ..
  from createOrder_rejects_invalid_cart[OF h1 h3, of id ex_address] h1 h2
  show ?thesis by blast
qed

theorem createOrder_stock_conservation_witness:
  "createOrder id (ex_shop 5 1) ''carol'' ex_address =
     (Inr ex_orders, snd (createOrder id (ex_shop 5 1) ''carol'' ex_address)) \<and>
   distinct (map c_productId (userCart (ex_shop 5 1) ''carol'')) \<and>
   map_option p_stock
     (tbl_product (snd (createOrder id (ex_shop 5 1) ''carol'' ex_address)) ''P1'') = Some 3 \<and>
   map_option p_stock
     (tbl_product (snd (createOrder id (ex_shop 5 1) ''carol'' ex_address)) ''P2'') = Some 0"
proof -
  have h: "createOrder id (ex_shop 5 1) ''carol'' ex_address =
     (Inr ex_orders, snd (createOrder id (ex_shop 5 1) ''carol'' ex_address))"
    by (simp add: prod_eq_iff) (simp add: ex_eval)
  have d: "distinct (map c_productId (userCart (ex_shop 5 1) ''carol''))"
    by (simp add: ex_eval)
  from createOrder_stock_conservation[OF h] have
    "\<forall>pid. tbl_product (snd (createOrder id (ex_shop 5 1) ''carol'' ex_address)) pid =
       map_option (\<lambda>p. p\<lparr>p_stock := p_stock p - purchased (ex_shop 5 1) ''carol'' pid\<rparr>)
         (tbl_product (ex_shop 5 1) pid)"
    by blast
  then have
    "map_option p_stock
       (tbl_product (snd (createOrder id (ex_shop 5 1) ''carol'' ex_address)) ''P1'') = Some 3"
    "map_option p_stock
       (tbl_product (snd (createOrder id (ex_shop 5 1) ''carol'' ex_address)) ''P2'') = Some 0"
    by (simp_all add: ex_shop_def ex_product_def ex_cart_def purchased_def userCart_def)
  with h d show ?thesis by blast
qed

theorem createOrder_vendor_partition_witness:
  "cartItem_findMany (ex_shop 5 1) ''carol'' \<noteq> None \<and>
   userCart (ex_shop 5 1) ''carol'' \<noteq> [] \<and>
   \<not> (\<exists>c\<in>set (userCart (ex_shop 5 1) ''carol''). lineInvalid (ex_shop 5 1) c) \<and>
   (\<exists>created s'. createOrder id (ex_shop 5 1) ''carol'' ex_address = (Inr created, s') \<and>
      set (map o_vendorId created) = {''V1'', ''V2''} \<and> distinct (map o_vendorId created))"
proof -
  have h1: "cartItem_findMany (ex_shop 5 1) ''carol'' \<noteq> None"
    by (simp add: ex_eval)
  have h2: "userCart (ex_shop 5 1) ''carol'' \<noteq> []"
    by (simp add: ex_eval)
  have h3: "\<forall>c\<in>set (userCart (ex_shop 5 1) ''carol''). \<not> lineInvalid (ex_shop 5 1) c"
    by (simp add: ex_eval)
  have v: "lineVendor (ex_shop 5 1) ` set (userCart (ex_shop 5 1) ''carol'') = {''V1'', ''V2''}"
    by (simp add: ex_eval)
  from createOrder_vendor_partition[OF h1 h2 h3, of id ex_address] obtain created s' where
    "createOrder id (ex_shop 5 1) ''carol'' ex_address = (Inr created, s')"
    "distinct (map o_vendorId created)"
    "set (map o_vendorId created) = lineVendor (ex_shop 5 1) ` set (userCart (ex_shop 5 1) ''carol'')"
    by blast
  with v have "\<exists>created s'. createOrder id (ex_shop 5 1) ''carol'' ex_address = (Inr created, s') \<and>
      set (map o_vendorId created) = {''V1'', ''V2''} \<and> distinct (map o_vendorId created)"
    by auto
  with h1 h2 h3 show ?thesis by blast
qed

theorem cancellation_restores_stock_witness:
  "createOrder id (ex_shop 5 1) ''carol'' ex_address =
     (Inr ex_orders, snd (createOrder id (ex_shop 5 1) ''carol'' ex_address)) \<and>
   fst (cancelOrder (snd (createOrder id (ex_shop 5 1) ''carol'' ex_address)) ''carol'' 0 None) =
     Inr (ex_order1 CANCELLED) \<and>
   map_option p_stock
     (tbl_product
        (snd (cancelOrder (snd (createOrder id (ex_shop 5 1) ''carol'' ex_address)) ''carol'' 0 None))
        ''P1'') = Some 5"
proof -
  let ?s1 = "snd (createOrder id (ex_shop 5 1) ''carol'' ex_address)"
  let ?r = "cancelOrder ?s1 ''carol'' 0 None"
  let ?v = "\<lparr>v_id = ''V1'', v_userId = ''alice'', v_isApproved = True\<rparr>"
  have h: "createOrder id (ex_shop 5 1) ''carol'' ex_address = (Inr ex_orders, ?s1)"
    by (simp add: prod_eq_iff) (simp add: ex_eval)
  have k: "0 < length ex_orders" by (simp add: ex_orders_def)
  have l: "length (tbl_order (ex_shop 5 1)) + 0 = 0" by (simp add: ex_shop_def)
  have "createOrder id (ex_shop 5 1) ''carol'' ex_address = (Inr ex_orders, ?s1) \<and>
      0 < length ex_orders \<and>
      (?r = cancelOrder ?s1 ''carol'' (length (tbl_order (ex_shop 5 1)) + 0) None \<or>
       ?r = updateOrderStatus ?s1 ''alice'' (length (tbl_order (ex_shop 5 1)) + 0) To_CANCELLED \<and>
       vendor_findUnique_userId (ex_shop 5 1) ''alice'' = Some ?v \<and>
       o_vendorId (ex_orders ! 0) = v_id ?v)"
    using h k by (simp only: l) simp
  with cancellation_restores_stock[where ?s0.0 = "ex_shop 5 1" and customer = "''carol''"
      and num = id and addr = ex_address and created = ex_orders and ?s1.0 = ?s1 and k = 0
      and r = ?r and reason = None and vendorUser = "''alice''" and v = ?v]
  have "fst ?r = Inr ((ex_orders ! 0)\<lparr>o_status := CANCELLED\<rparr>) \<and>
      (\<forall>it\<in>set (o_items (ex_orders ! 0)).
          tbl_product (snd ?r) (oi_productId it) = tbl_product (ex_shop 5 1) (oi_productId it))"
    by blast
  then have "fst ?r = Inr (ex_order1 CANCELLED)"
    and "tbl_product (snd ?r) ''P1'' = tbl_product (ex_shop 5 1) ''P1''"
    by (simp_all add: ex_orders_def ex_order1_def)
  then show ?thesis using h by (simp add: ex_shop_def ex_product_def)
qed

theorem terminal_orders_stay_witness:
  "order_findUnique (ex_placed CANCELLED) 0 = Some (ex_order1 CANCELLED) \<and>
   (\<exists>e. updateOrderStatus (ex_placed CANCELLED) ''alice'' 0 To_SHIPPED =
           (Inl e, ex_placed CANCELLED) \<and> codeOf e = Some BAD_REQUEST) \<and>
   order_findUnique
     (run id (ex_placed CANCELLED)
        [UpdateOrderStatus ''alice'' 0 To_CONFIRMED, CancelOrder ''carol'' 0 None]) 0 =
     Some (ex_order1 CANCELLED)"
proof -
  have h1: "order_findUnique (ex_placed CANCELLED) 0 = Some (ex_order1 CANCELLED)"
    by (simp add: ex_eval2)
  have h2: "o_status (ex_order1 CANCELLED) = DELIVERED \<or> o_status (ex_order1 CANCELLED) = CANCELLED"
    by (simp add: ex_order1_def)
  have v: "\<exists>v. vendor_findUnique_userId (ex_placed CANCELLED) ''alice'' = Some v \<and>
               v_id v = o_vendorId (ex_order1 CANCELLED)"
    by (simp add: ex_eval2)
  from terminal_orders_stay[OF h1 h2, of "''alice''" To_SHIPPED None id
      "[UpdateOrderStatus ''alice'' 0 To_CONFIRMED, CancelOrder ''carol'' 0 None]"] v h1
  show ?thesis by blast
qed

theorem shipped_order_transitions_witness:
  "order_findUnique (ex_placed SHIPPED) 0 = Some (ex_order1 SHIPPED) \<and>
   o_status (ex_order1 SHIPPED) = SHIPPED \<and>
   (\<exists>s'. updateOrderStatus (ex_placed SHIPPED) ''alice'' 0 To_CONFIRMED =
            (Inr (ex_order1 CONFIRMED), s'))"
proof -
  have h1: "order_findUnique (ex_placed SHIPPED) 0 = Some (ex_order1 SHIPPED)"
    by (simp add: ex_eval2)
  have h2: "o_status (ex_order1 SHIPPED) = SHIPPED" by (simp add: ex_order1_def)
  have h3: "vendor_findUnique_userId (ex_placed SHIPPED) ''alice'' =
      Some \<lparr>v_id = ''V1'', v_userId = ''alice'', v_isApproved = True\<rparr>"
    by (simp add: ex_eval2)
  have h4: "o_vendorId (ex_order1 SHIPPED) =
      v_id \<lparr>v_id = ''V1'', v_userId = ''alice'', v_isApproved = True\<rparr>"
    by (simp add: ex_order1_def)
  have h5: "To_CONFIRMED = To_CANCELLED \<longrightarrow>
      (\<forall>it\<in>set (o_items (ex_order1 SHIPPED)).
          oi_productId it \<in> dom (tbl_product (ex_placed SHIPPED)))"
    by simp
  have e: "(ex_order1 SHIPPED)\<lparr>o_status := statusValue To_CONFIRMED\<rparr> = ex_order1 CONFIRMED"
    by (simp add: ex_order1_def)
  from shipped_order_transitions[OF h1 h2 h3 h4 h5] e h1 h2
  show ?thesis by auto
qed

theorem updateOrderStatus_authorization_witness:
  "updateOrderStatus (ex_placed PENDING) ''carol'' 0 To_CONFIRMED =
     (Inl (ORPCError FORBIDDEN MustBeVendor), ex_placed PENDING) \<and>
   updateOrderStatus (ex_placed PENDING) ''bob'' 7 To_CONFIRMED =
     (Inl (ORPCError NOT_FOUND OrderNotFound), ex_placed PENDING) \<and>
   updateOrderStatus (ex_placed PENDING) ''bob'' 0 To_CONFIRMED =
     (Inl (ORPCError FORBIDDEN OnlyUpdateOwnOrders), ex_placed PENDING)"
proof -
  let ?bob = "\<lparr>v_id = ''V2'', v_userId = ''bob'', v_isApproved = True\<rparr>"
  have h1: "vendor_findUnique_userId (ex_placed PENDING) ''carol'' = None"
    by (simp add: ex_eval2)
  have h2: "vendor_findUnique_userId (ex_placed PENDING) ''bob'' = Some ?bob \<and>
      order_findUnique (ex_placed PENDING) 7 = None"
    by (simp add: ex_eval2)
  have h3: "vendor_findUnique_userId (ex_placed PENDING) ''bob'' = Some ?bob \<and>
      order_findUnique (ex_placed PENDING) 0 = Some (ex_order1 PENDING) \<and>
      o_vendorId (ex_order1 PENDING) \<noteq> v_id ?bob"
    by (simp add: ex_eval2)
  from updateOrderStatus_authorization[of "ex_placed PENDING" "''carol''" 0 To_CONFIRMED] h1
  have a: "updateOrderStatus (ex_placed PENDING) ''carol'' 0 To_CONFIRMED =
     (Inl (ORPCError FORBIDDEN MustBeVendor), ex_placed PENDING)" by blast
  from updateOrderStatus_authorization[of "ex_placed PENDING" "''bob''" 7 To_CONFIRMED ?bob] h2
  have b: "updateOrderStatus (ex_placed PENDING) ''bob'' 7 To_CONFIRMED =
     (Inl (ORPCError NOT_FOUND OrderNotFound), ex_placed PENDING)" by blast
  from updateOrderStatus_authorization[of "ex_placed PENDING" "''bob''" 0 To_CONFIRMED ?bob
      "ex_order1 PENDING"] h3
  have c: "updateOrderStatus (ex_placed PENDING) ''bob'' 0 To_CONFIRMED =
     (Inl (ORPCError FORBIDDEN OnlyUpdateOwnOrders), ex_placed PENDING)" by blast
  from a b c show ?thesis by blast
qed

theorem cancelOrder_outcomes_witness:
  "cancelOrder (ex_placed PENDING) ''carol'' 7 None =
     (Inl (ORPCError NOT_FOUND OrderNotFound), ex_placed PENDING) \<and>
   cancelOrder (ex_placed PENDING) ''dave'' 0 None =
     (Inl (ORPCError FORBIDDEN OnlyCancelOwnOrders), ex_placed PENDING) \<and>
   cancelOrder (ex_placed SHIPPED) ''carol'' 0 None =
     (Inl (ORPCError BAD_REQUEST (CannotCancelWithStatus SHIPPED)), ex_placed SHIPPED) \<and>
   (\<exists>s'. cancelOrder (ex_placed CONFIRMED) ''carol'' 0 None = (Inr (ex_order1 CANCELLED), s') \<and>
         order_findUnique s' 0 = Some (ex_order1 CANCELLED))"
proof -
  have h1: "order_findUnique (ex_placed PENDING) 7 = None"
    by (simp add: ex_eval2)
  have h2: "order_findUnique (ex_placed PENDING) 0 = Some (ex_order1 PENDING) \<and>
      o_userId (ex_order1 PENDING) \<noteq> ''dave''"
    by (simp add: ex_eval2)
  have h3: "order_findUnique (ex_placed SHIPPED) 0 = Some (ex_order1 SHIPPED) \<and>
      o_userId (ex_order1 SHIPPED) = ''carol'' \<and>
      o_status (ex_order1 SHIPPED) \<noteq> PENDING \<and> o_status (ex_order1 SHIPPED) \<noteq> CONFIRMED"
    by (simp add: ex_eval2)
  have h4: "order_findUnique (ex_placed CONFIRMED) 0 = Some (ex_order1 CONFIRMED) \<and>
      o_userId (ex_order1 CONFIRMED) = ''carol'' \<and>
      (o_status (ex_order1 CONFIRMED) = PENDING \<or> o_status (ex_order1 CONFIRMED) = CONFIRMED) \<and>
      (\<forall>it\<in>set (o_items (ex_order1 CONFIRMED)).
          oi_productId it \<in> dom (tbl_product (ex_placed CONFIRMED)))"
    by (simp add: ex_eval2)
  have e: "o_status (ex_order1 SHIPPED) = SHIPPED"
    "(ex_order1 CONFIRMED)\<lparr>o_status := CANCELLED\<rparr> = ex_order1 CANCELLED"
    by (simp_all add: ex_order1_def)
  from cancelOrder_outcomes[of "ex_placed PENDING" 7 "''carol''" None] h1
  have a: "cancelOrder (ex_placed PENDING) ''carol'' 7 None =
     (Inl (ORPCError NOT_FOUND OrderNotFound), ex_placed PENDING)" by blast
  from cancelOrder_outcomes[of "ex_placed PENDING" 0 "''dave''" None "ex_order1 PENDING"] h2
  have b: "cancelOrder (ex_placed PENDING) ''dave'' 0 None =
     (Inl (ORPCError FORBIDDEN OnlyCancelOwnOrders), ex_placed PENDING)" by blast
  from cancelOrder_outcomes[of "ex_placed SHIPPED" 0 "''carol''" None "ex_order1 SHIPPED"] h3
  have c: "cancelOrder (ex_placed SHIPPED) ''carol'' 0 None =
     (Inl (ORPCError BAD_REQUEST (CannotCancelWithStatus SHIPPED)), ex_placed SHIPPED)"
    by (simp add: e)
  from cancelOrder_outcomes[of "ex_placed CONFIRMED" 0 "''carol''" None "ex_order1 CONFIRMED"] h4
  have d: "\<exists>s'. cancelOrder (ex_placed CONFIRMED) ''carol'' 0 None = (Inr (ex_order1 CANCELLED), s') \<and>
         order_findUnique s' 0 = Some (ex_order1 CANCELLED)"
    by (simp add: e)
  from a b c d show ?thesis by blast
qed

theorem order_prices_immutable_witness:
  "map_option p_price (tbl_product (run id (ex_placed PENDING) [UpdateProduct ''alice'' ex_newPrice]) ''P1'') = Some 99 \<and>
   map oi_price (o_items (tbl_order (run id (ex_placed PENDING) [UpdateProduct ''alice'' ex_newPrice]) ! 0)) = [10] \<and>
   o_total (tbl_order (run id (ex_placed PENDING) [UpdateProduct ''alice'' ex_newPrice]) ! 0) = 20"
proof -
  have p: "map_option p_price (tbl_product (run id (ex_placed PENDING) [UpdateProduct ''alice'' ex_newPrice]) ''P1'') = Some 99"
    by (simp add: ex_eval2)
  have l: "0 < length (tbl_order (ex_placed PENDING))" by (simp add: ex_placed_def)
  have o: "o_items (tbl_order (ex_placed PENDING) ! 0) = [\<lparr>oi_productId = ''P1'', oi_quantity = 2, oi_price = 10\<rparr>]"
    "o_total (tbl_order (ex_placed PENDING) ! 0) = 20"
    by (simp_all add: ex_placed_def ex_order1_def)
  from order_prices_immutable[of "ex_placed PENDING" "''alice''" ex_newPrice id
      "[UpdateProduct ''alice'' ex_newPrice]"] l
  have "o_items (tbl_order (run id (ex_placed PENDING) [UpdateProduct ''alice'' ex_newPrice]) ! 0) =
          o_items (tbl_order (ex_placed PENDING) ! 0)"
    "o_total (tbl_order (run id (ex_placed PENDING) [UpdateProduct ''alice'' ex_newPrice]) ! 0) =
          o_total (tbl_order (ex_placed PENDING) ! 0)"
    by blast+
  with o p show ?thesis by simp
qed

theorem status_never_back_to_PENDING_witness:
  "o_status (tbl_order (ex_placed CONFIRMED) ! 0) \<noteq> PENDING \<and>
   o_status (tbl_order (run id (ex_placed CONFIRMED)
      [UpdateOrderStatus ''alice'' 0 To_SHIPPED, CancelOrder ''carol'' 0 None]) ! 0) \<noteq> PENDING \<and>
   o_status (tbl_order (run id (ex_placed CONFIRMED)
      [UpdateOrderStatus ''alice'' 0 To_SHIPPED, CancelOrder ''carol'' 0 None]) ! 0) = SHIPPED"
proof -
  have l: "0 < length (tbl_order (ex_placed CONFIRMED))" by (simp add: ex_placed_def)
  have np: "o_status (tbl_order (ex_placed CONFIRMED) ! 0) \<noteq> PENDING"
    by (simp add: ex_placed_def ex_order1_def)
  have sh: "o_status (tbl_order (run id (ex_placed CONFIRMED)
      [UpdateOrderStatus ''alice'' 0 To_SHIPPED, CancelOrder ''carol'' 0 None]) ! 0) = SHIPPED"
    by (simp add: ex_eval2)
  from status_never_back_to_PENDING[of To_SHIPPED "ex_placed CONFIRMED" "''alice''" 0 None id
      "[UpdateOrderStatus ''alice'' 0 To_SHIPPED, CancelOrder ''carol'' 0 None]"] l np
  have "o_status (tbl_order (run id (ex_placed CONFIRMED)
      [UpdateOrderStatus ''alice'' 0 To_SHIPPED, CancelOrder ''carol'' 0 None]) ! 0) \<noteq> PENDING"
    by blast
  with np sh show ?thesis by simp
qed

end
